theory Spec2Isabelle
  imports Complex_Main "HOL-Library.Word"
begin

section \<open>The synchronous Modbus serial client (pymodbus/client/serial.py)\<close>

text \<open>
  The development embeds \<^verbatim>\<open>ModbusSerialClient\<close>: its constructor (the timing model),
  \<^verbatim>\<open>connect\<close>, \<^verbatim>\<open>close\<close>, \<^verbatim>\<open>send\<close>, \<^verbatim>\<open>_wait_for_data\<close> and \<^verbatim>\<open>recv\<close>.

  The float arithmetic of the constructor is binary64 arithmetic, modelled on the
  rationals: every operation rounds to the nearest float, a too large int raises
  \<^verbatim>\<open>OverflowError\<close> when it is converted, and a too large result is an infinity. The
  durations the methods work with (the timing values of a client, the connect timeout,
  the clock) are finite and are held as reals; the arithmetic of the clock is exact.
  Byte counts and the \<^verbatim>\<open>size\<close> argument of \<^verbatim>\<open>recv\<close> are natural numbers.
\<close>

subsection \<open>Data\<close>

type_synonym byte = "8 word"
type_synonym bytes = "byte list"

text \<open>
  The exceptions that leave a method of the client: those the client's own code raises,
  and \<open>DeviceError msg\<close>, an exception of the device layer, of whatever type, whose
  message is \<open>msg\<close>. The message of \<^verbatim>\<open>ConnectionException\<close> (the \<^verbatim>\<open>repr\<close> of the
  client) is not modelled.
\<close>

datatype error = ZeroDivisionError | OverflowError | ConnectionException | DeviceError string

text \<open>
  The number passed for \<^verbatim>\<open>stopbits\<close>: an int, or a float (1.5 stop bits). \<open>PyFloat x\<close>
  is the float written as the decimal \<open>x\<close>, that is, the float nearest to \<open>x\<close>.
\<close>

datatype number = PyInt int | PyFloat rat

text \<open>The keyword arguments with which the constructor builds \<^verbatim>\<open>CommParams\<close>.\<close>

record CommParams =
  host :: string
  baudrate :: int
  bytesize :: int
  parity :: string
  stopbits :: number
  handle_local_echo :: bool
  comm_name :: string
  reconnect_delay :: real
  reconnect_delay_max :: real
  timeout_connect :: real

text \<open>
  Modelled from the spec: \<^verbatim>\<open>ModbusTransactionState\<close> (module \<^verbatim>\<open>pymodbus.utilities\<close>) is
  not among the sources; the specification lists the states Idle, Sending,
  WaitingForReply, Retrying, Failed and Complete.
\<close>

datatype ModbusTransactionState =
  IDLE | SENDING | WAITING_FOR_REPLY | RETRYING | FAILED | COMPLETE

text \<open>
  The handle returned by \<^verbatim>\<open>serial.serial_for_url\<close>: the settings it was opened with and
  the inter-byte timeout assigned afterwards.
\<close>

record Serial =
  url :: string
  timeout :: real
  port_bytesize :: int
  port_stopbits :: number
  port_baudrate :: int
  port_parity :: string
  exclusive :: bool
  port_inter_byte_timeout :: real

text \<open>
  The fields of a \<^verbatim>\<open>ModbusSerialClient\<close>. The class attributes \<^verbatim>\<open>state\<close>,
  \<^verbatim>\<open>inter_byte_timeout\<close> and \<^verbatim>\<open>silent_interval\<close> are fields with the class's defaults.
  What the base class stores (framer, retry policy) is read by no method below and is
  left out.
\<close>

record client =
  comm_params :: CommParams
  socket :: "Serial option"
  last_frame_end :: "real option"
  t0 :: real
  recv_interval :: real
  inter_byte_timeout :: real
  silent_interval :: real
  state :: ModbusTransactionState

subsection \<open>The environment: clock, line, device and logger\<close>

text \<open>
  Every call into pyserial is recorded, with the time of the call, in \<open>calls\<close>; a call
  that is not in the record did not happen.
\<close>

datatype dev_call =
  Open Serial
  | SetInterByteTimeout real
  | Close
  | InWaiting nat
  | Read nat
  | Write bytes

datatype log_entry = LogError string | LogWarning bytes

text \<open>
  The world outside the client.
  \<^item> \<open>now\<close> is what \<^verbatim>\<open>time.time()\<close> returns. Only waiting takes time: \<^verbatim>\<open>time.sleep d\<close>
    advances the clock by exactly \<open>d\<close>. (Python rejects a negative \<open>d\<close>; the only
    argument the client passes is its poll interval, which the constructor makes at
    least 0.001.)
  \<^item> \<open>rx\<close> is the receive buffer of the device. It changes when the client reads and
    while the client waits: during the \<open>k\<close>-th wait (a sleep, or a read that blocks)
    the line turns the buffer \<open>b\<close> into \<open>line k b\<close>. The line is arbitrary: it may
    append bytes, leave the buffer alone, or empty it.
  \<^item> \<open>fault k\<close> is the exception, if any, with which the device layer answers when
    call number \<open>k\<close> opens, configures or closes the port; its text stands for the
    exception of whatever type. Polling, reading and writing do not fail.
  \<^item> \<open>write_reports\<close> is what the device's \<^verbatim>\<open>write\<close> returns for a payload.
\<close>

record world =
  now :: real
  rx :: bytes
  line :: "nat \<Rightarrow> bytes \<Rightarrow> bytes"
  waits :: nat
  fault :: "nat \<Rightarrow> string option"
  write_reports :: "bytes \<Rightarrow> nat option"
  calls :: "(real \<times> dev_call) list"
  logged :: "log_entry list"

definition called :: "dev_call \<Rightarrow> world \<Rightarrow> world" where
  "called d w = w\<lparr>calls := calls w @ [(now w, d)]\<rparr>"

definition await :: "world \<Rightarrow> world" where
  "await w = w\<lparr>rx := line w (waits w) (rx w), waits := Suc (waits w)\<rparr>"

definition time_sleep :: "real \<Rightarrow> world \<Rightarrow> world" where
  "time_sleep d w = await (w\<lparr>now := now w + d\<rparr>)"

definition Log_error :: "string \<Rightarrow> world \<Rightarrow> world" where
  "Log_error msg w = w\<lparr>logged := logged w @ [LogError msg]\<rparr>"

definition Log_warning :: "bytes \<Rightarrow> world \<Rightarrow> world" where
  "Log_warning result w = w\<lparr>logged := logged w @ [LogWarning result]\<rparr>"

definition serial_for_url ::
  "string \<Rightarrow> real \<Rightarrow> int \<Rightarrow> number \<Rightarrow> int \<Rightarrow> string \<Rightarrow> bool \<Rightarrow> world
     \<Rightarrow> (string + Serial) \<times> world"
where
  "serial_for_url u tmo bs sb br par ex w =
     (let s = \<lparr>url = u, timeout = tmo, port_bytesize = bs, port_stopbits = sb,
                port_baudrate = br, port_parity = par, exclusive = ex,
                port_inter_byte_timeout = 0\<rparr>
      in (case fault w (length (calls w)) of
            Some msg \<Rightarrow> Inl msg
          | None \<Rightarrow> Inr s,
          called (Open s) w))"

definition set_inter_byte_timeout :: "real \<Rightarrow> Serial \<Rightarrow> world \<Rightarrow> (string + Serial) \<times> world" where
  "set_inter_byte_timeout t s w =
     (case fault w (length (calls w)) of
        Some msg \<Rightarrow> Inl msg
      | None \<Rightarrow> Inr (s\<lparr>port_inter_byte_timeout := t\<rparr>),
      called (SetInterByteTimeout t) w)"

definition serial_close :: "world \<Rightarrow> (string + unit) \<times> world" where
  "serial_close w =
     (case fault w (length (calls w)) of
        Some msg \<Rightarrow> Inl msg
      | None \<Rightarrow> Inr (),
      called Close w)"

text \<open>
  \<^verbatim>\<open>read n\<close> of pyserial blocks until \<open>n\<close> bytes are there or its timeout expires, and
  returns at most \<open>n\<close> bytes: a read that finds fewer than \<open>n\<close> bytes waits once, and
  takes what the buffer holds after that wait.
\<close>

definition serial_read :: "nat \<Rightarrow> world \<Rightarrow> bytes \<times> world" where
  "serial_read n w =
     (let w1 = called (Read n) w;
          w2 = (if length (rx w1) < n then await w1 else w1)
      in (take n (rx w2), w2\<lparr>rx := drop n (rx w2)\<rparr>))"

definition serial_write :: "bytes \<Rightarrow> world \<Rightarrow> nat option \<times> world" where
  "serial_write request w = (write_reports w request, called (Write request) w)"

subsection \<open>Python floats\<close>

text \<open>
  A finite Python float is a binary64 number, modelled by the rational it denotes.
  \<open>binary64 x\<close> is the binary64 number nearest to the rational \<open>x\<close>, a tie going to the
  even significand: with \<open>e\<close> the binary exponent of \<open>x\<close>, the result is the multiple of
  \<open>2\<^sup>u\<close> nearest to \<open>x\<close>, where \<open>u = max e (-1022) - 52\<close> (53 significant bits, or the
  subnormal spacing). When the magnitude of that multiple reaches \<open>2\<^sup>1\<^sup>0\<^sup>2\<^sup>4\<close> the
  rounding overflows and \<open>binary64 x\<close> is \<open>None\<close>. Signed zeros and NaN are not modelled:
  no operation below produces a NaN.
\<close>

text \<open>\<^verbatim>\<open>int.bit_length\<close>.\<close>

fun bit_length :: "nat \<Rightarrow> nat" where
  "bit_length n = (if n = 0 then 0 else Suc (bit_length (n div 2)))"

declare bit_length.simps [simp del]

text \<open>The integer nearest to \<open>r\<close>, a tie going to the even one.\<close>

definition round_half_even :: "rat \<Rightarrow> int" where
  "round_half_even r =
     (let f = \<lfloor>r\<rfloor>; d = r - of_int f
      in if d < 1 / 2 then f else if 1 / 2 < d then f + 1 else if even f then f else f + 1)"

text \<open>
  The binary exponent of \<open>x \<noteq> 0\<close>: the \<open>e\<close> with \<open>2\<^sup>e \<le> \<bar>x\<bar> < 2\<^sup>e\<^sup>+\<^sup>1\<close>, found from the
  bit lengths of numerator and denominator.
\<close>

definition exponent :: "rat \<Rightarrow> int" where
  "exponent x =
     (case quotient_of \<bar>x\<bar> of
        (p, q) \<Rightarrow>
          let k = int (bit_length (nat p)) - int (bit_length (nat q))
          in if 2 powi k \<le> \<bar>x\<bar> then k else k - 1)"

definition binary64 :: "rat \<Rightarrow> rat option" where
  "binary64 x =
     (if x = 0 then Some 0
      else
        let u = max (exponent x) (- 1022) - 52;
            y = of_int (round_half_even (x / 2 powi u)) * 2 powi u
        in if 2 ^ 1024 \<le> \<bar>y\<bar> then None else Some y)"

text \<open>A float: finite, or one of the infinities.\<close>

datatype pyfloat = Fin rat | PInf | NInf

text \<open>
  The float result of an operation whose exact result is \<open>x\<close>, and of a literal
  written as \<open>x\<close>: an overflow gives the infinity of the sign of \<open>x\<close>.
\<close>

definition rnd :: "rat \<Rightarrow> pyfloat" where
  "rnd x = (case binary64 x of Some y \<Rightarrow> Fin y | None \<Rightarrow> if 0 < x then PInf else NInf)"

text \<open>
  \<^verbatim>\<open>float(n)\<close> of an int, also the conversion of an int operand in mixed arithmetic:
  \<^verbatim>\<open>OverflowError\<close> where the rounding overflows.
\<close>

definition float_of_int :: "int \<Rightarrow> error + rat" where
  "float_of_int n =
     (case binary64 (of_int n) of Some y \<Rightarrow> Inr y | None \<Rightarrow> Inl OverflowError)"

text \<open>\<open>a + x\<close> for a finite \<open>a\<close>.\<close>

definition fadd :: "rat \<Rightarrow> pyfloat \<Rightarrow> pyfloat" where
  "fadd a x = (case x of Fin b \<Rightarrow> rnd (a + b) | PInf \<Rightarrow> PInf | NInf \<Rightarrow> NInf)"

text \<open>\<open>x * k\<close> for a finite, positive \<open>k\<close>.\<close>

definition fmul :: "pyfloat \<Rightarrow> rat \<Rightarrow> pyfloat" where
  "fmul x k = (case x of Fin a \<Rightarrow> rnd (a * k) | PInf \<Rightarrow> PInf | NInf \<Rightarrow> NInf)"

text \<open>\<open>x / b\<close> for a finite \<open>b\<close> other than 0.\<close>

definition fdiv :: "pyfloat \<Rightarrow> rat \<Rightarrow> pyfloat" where
  "fdiv x b =
     (case x of
        Fin a \<Rightarrow> rnd (a / b)
      | PInf \<Rightarrow> if 0 < b then PInf else NInf
      | NInf \<Rightarrow> if 0 < b then NInf else PInf)"

definition fless :: "pyfloat \<Rightarrow> pyfloat \<Rightarrow> bool" where
  "fless x y =
     (case x of
        Fin a \<Rightarrow> (case y of Fin b \<Rightarrow> a < b | PInf \<Rightarrow> True | NInf \<Rightarrow> False)
      | PInf \<Rightarrow> False
      | NInf \<Rightarrow> (case y of NInf \<Rightarrow> False | _ \<Rightarrow> True))"

text \<open>\<^verbatim>\<open>max(x, y)\<close>: \<open>y\<close> when it is greater than \<open>x\<close>, otherwise \<open>x\<close>.\<close>

definition py_max :: "pyfloat \<Rightarrow> pyfloat \<Rightarrow> pyfloat" where
  "py_max x y = (if fless x y then y else x)"

text \<open>
  \<^verbatim>\<open>round(x, nd)\<close> for the small \<open>nd\<close> used here: the exact value of \<open>x\<close> is rounded to
  the nearest multiple of \<open>10\<^sup>-\<^sup>n\<^sup>d\<close>, a tie going to the even one, and the float nearest
  to that decimal is returned. An infinity rounds to itself.
\<close>

definition py_round :: "pyfloat \<Rightarrow> nat \<Rightarrow> pyfloat" where
  "py_round x nd =
     (case x of
        Fin a \<Rightarrow> rnd (of_int (round_half_even (a * 10 ^ nd)) / 10 ^ nd)
      | PInf \<Rightarrow> PInf
      | NInf \<Rightarrow> NInf)"

text \<open>The value of a finite float as a duration.\<close>

definition finite_value :: "pyfloat \<Rightarrow> real option" where
  "finite_value x = (case x of Fin a \<Rightarrow> Some (of_rat a) | PInf \<Rightarrow> None | NInf \<Rightarrow> None)"

subsection \<open>The constructor: the timing model\<close>

text \<open>
  What a call of the constructor does: it raises, or it returns a client. The durations
  of this development are finite, and \<open>Built c\<close> is a client \<open>c\<close> all of whose timing
  values are finite. A call that returns a client with an infinite timing value (its
  arguments are then beyond \<open>10\<^sup>3\<^sup>0\<^sup>0\<close>) is \<open>BuiltInfinite\<close>, with the values of
  \<^verbatim>\<open>_t0\<close>, \<^verbatim>\<open>_recv_interval\<close>, \<^verbatim>\<open>inter_byte_timeout\<close> and \<^verbatim>\<open>silent_interval\<close>; the
  methods are not modelled for such a client.
\<close>

datatype constructed =
  Raised error
  | Built client
  | BuiltInfinite pyfloat pyfloat pyfloat pyfloat

text \<open>
  \<^verbatim>\<open>float(1 + bytesize + stopbits)\<close>. With an int for \<^verbatim>\<open>stopbits\<close> the sum is an int,
  exact, and is converted; with a float the int \<^verbatim>\<open>1 + bytesize\<close> is converted and the
  float added.
\<close>

definition float_sum :: "int \<Rightarrow> number \<Rightarrow> error + pyfloat" where
  "float_sum bs sb =
     (case sb of
        PyInt s \<Rightarrow>
          (case float_of_int (1 + bs + s) of Inl e \<Rightarrow> Inl e | Inr a \<Rightarrow> Inr (Fin a))
      | PyFloat x \<Rightarrow>
          (case float_of_int (1 + bs) of Inl e \<Rightarrow> Inl e | Inr a \<Rightarrow> Inr (fadd a (rnd x))))"

text \<open>
  \<^verbatim>\<open>__init__\<close>, from the assembled \<^verbatim>\<open>CommParams\<close> on. The division by \<^verbatim>\<open>baudrate\<close>
  converts the int to a float, which raises \<^verbatim>\<open>OverflowError\<close> when it is too large, and
  raises \<^verbatim>\<open>ZeroDivisionError\<close> when it is 0. Above 19200 baud \<^verbatim>\<open>inter_byte_timeout\<close>
  is not assigned and keeps the class default 0.
\<close>

definition ModbusSerialClient :: "CommParams \<Rightarrow> constructed" where
  "ModbusSerialClient p =
     (case float_sum (bytesize p) (stopbits p) of
        Inl e \<Rightarrow> Raised e
      | Inr n \<Rightarrow>
          (case float_of_int (baudrate p) of
             Inl e \<Rightarrow> Raised e
           | Inr b \<Rightarrow>
               if b = 0 then Raised ZeroDivisionError
               else
                 let t = fdiv n b;
                     ri = py_max (fmul t 4) (rnd (1 / 1000));
                     ibt = (if baudrate p > 19200 then Fin 0 else fmul t (3 / 2));
                     si = py_round (if baudrate p > 19200 then fdiv (Fin (7 / 4)) 1000
                                    else fmul t (7 / 2)) 6
                 in (case finite_value t of
                       None \<Rightarrow> BuiltInfinite t ri ibt si
                     | Some tv \<Rightarrow>
                    (case finite_value ri of
                       None \<Rightarrow> BuiltInfinite t ri ibt si
                     | Some riv \<Rightarrow>
                    (case finite_value ibt of
                       None \<Rightarrow> BuiltInfinite t ri ibt si
                     | Some ibtv \<Rightarrow>
                    (case finite_value si of
                       None \<Rightarrow> BuiltInfinite t ri ibt si
                     | Some siv \<Rightarrow>
                         Built \<lparr>comm_params = p, socket = None, last_frame_end = None,
                                 t0 = tv, recv_interval = riv, inter_byte_timeout = ibtv,
                                 silent_interval = siv, state = IDLE\<rparr>))))))"

subsection \<open>Connecting and closing\<close>

text \<open>
  \<^verbatim>\<open>close\<close>: closes the handle if there is one, and then forgets it. When the device's
  \<^verbatim>\<open>close\<close> raises, the exception leaves the method before the handle is forgotten.
\<close>

definition close :: "client \<Rightarrow> world \<Rightarrow> (error + unit) \<times> client \<times> world" where
  "close c w =
     (if socket c \<noteq> None then
        (case serial_close w of
           (Inl msg, w1) \<Rightarrow> (Inl (DeviceError msg), c, w1)
         | (Inr u, w1) \<Rightarrow> (Inr (), c\<lparr>socket := None\<rparr>, w1))
      else (Inr (), c\<lparr>socket := None\<rparr>, w))"

text \<open>
  The \<^verbatim>\<open>except\<close> clause of \<^verbatim>\<open>connect\<close> and the \<^verbatim>\<open>return\<close> that follows it: the
  exception is logged and \<^verbatim>\<open>close\<close> is called; an exception of \<^verbatim>\<open>close\<close> is not
  handled and leaves \<^verbatim>\<open>connect\<close>.
\<close>

definition connect_except :: "client \<Rightarrow> string \<Rightarrow> world \<Rightarrow> (error + bool) \<times> client \<times> world" where
  "connect_except c msg w =
     (case close c (Log_error msg w) of
        (Inl e, c', w') \<Rightarrow> (Inl e, c', w')
      | (Inr u, c', w') \<Rightarrow> (Inr (socket c' \<noteq> None), c', w'))"

text \<open>
  \<^verbatim>\<open>connect\<close>. The \<^verbatim>\<open>try\<close> block covers the opening and the assignment of the
  inter-byte timeout; when the assignment fails the handle is already stored in the
  client.
\<close>

definition connect :: "client \<Rightarrow> world \<Rightarrow> (error + bool) \<times> client \<times> world" where
  "connect c w =
     (if socket c \<noteq> None then (Inr True, c, w)
      else
        (case serial_for_url (host (comm_params c)) (timeout_connect (comm_params c))
                (bytesize (comm_params c)) (stopbits (comm_params c))
                (baudrate (comm_params c)) (parity (comm_params c)) True w of
           (Inl msg, w1) \<Rightarrow> connect_except c msg w1
         | (Inr s, w1) \<Rightarrow>
             (case set_inter_byte_timeout (inter_byte_timeout c) s w1 of
                (Inl msg, w2) \<Rightarrow> connect_except (c\<lparr>socket := Some s\<rparr>) msg w2
              | (Inr s', w2) \<Rightarrow>
                  (let c' = c\<lparr>socket := Some s', last_frame_end := None\<rparr>
                   in (Inr (socket c' \<noteq> None), c', w2)))))"

text \<open>The property \<^verbatim>\<open>connected\<close>.\<close>

definition connected :: "client \<Rightarrow> world \<Rightarrow> (error + bool) \<times> client \<times> world" where
  "connected c w = connect c w"

subsection \<open>Sending\<close>

text \<open>\<^verbatim>\<open>_in_waiting\<close>: the number of bytes in the receive buffer of the open handle.\<close>

definition in_waiting :: "world \<Rightarrow> nat \<times> world" where
  "in_waiting w = (length (rx w), called (InWaiting (length (rx w))) w)"

text \<open>
  \<^verbatim>\<open>send\<close>. The base class's \<^verbatim>\<open>_start_send\<close> is not among the sources; it is the
  parameter \<open>start_send\<close>, the update it makes to the transaction state.
\<close>

definition send ::
  "(ModbusTransactionState \<Rightarrow> ModbusTransactionState) \<Rightarrow> client \<Rightarrow> bytes \<Rightarrow> world
     \<Rightarrow> (error + nat) \<times> client \<times> world"
where
  "send start_send c request w =
     (let c1 = c\<lparr>state := start_send (state c)\<rparr>
      in if socket c1 = None then (Inl ConnectionException, c1, w)
         else if request \<noteq> [] then
           (case in_waiting w of
              (waitingbytes, w1) \<Rightarrow>
                (let w2 = (if waitingbytes \<noteq> 0
                           then (case serial_read waitingbytes w1 of
                                   (result, w') \<Rightarrow> Log_warning result w')
                           else w1)
                 in (case serial_write request w2 of
                       (None, w3) \<Rightarrow> (Inr 0, c1, w3)
                     | (Some sz, w3) \<Rightarrow> (Inr sz, c1, w3))))
         else (Inr 0, c1, w))"

subsection \<open>Receiving\<close>

text \<open>
  The loop of \<^verbatim>\<open>_wait_for_data\<close>, entered at time \<open>start\<close>. It may run forever (a poll
  interval of 0 never lets the clock reach the deadline), so not returning is the value
  \<open>None\<close>.
\<close>

partial_function (option) wait_loop ::
  "client \<Rightarrow> real \<Rightarrow> nat \<Rightarrow> bool \<Rightarrow> world \<Rightarrow> (nat \<times> world) option"
where
  "wait_loop c start sz more_data w =
     (if now w - start \<le> timeout_connect (comm_params c) then
        (case in_waiting w of
           (available, w1) \<Rightarrow>
             if (more_data \<and> available = 0) \<or> (more_data \<and> available = sz)
             then Some (sz, w1)
             else if available \<noteq> 0 \<and> available \<noteq> sz
               then wait_loop c start available True (time_sleep (recv_interval c) w1)
               else wait_loop c start sz more_data (time_sleep (recv_interval c) w1))
      else Some (sz, w))"

declare wait_loop.simps [code]

definition wait_for_data :: "client \<Rightarrow> world \<Rightarrow> (nat \<times> world) option" where
  "wait_for_data c w = wait_loop c (now w) 0 False w"

text \<open>\<^verbatim>\<open>recv\<close>; \<open>None\<close> when one of its waits does not return.\<close>

definition recv :: "client \<Rightarrow> nat option \<Rightarrow> world \<Rightarrow> ((error + bytes) \<times> client \<times> world) option" where
  "recv c size_arg w =
     (if socket c = None then Some (Inl ConnectionException, c, w)
      else
        (case (case size_arg of None \<Rightarrow> wait_for_data c w | Some n \<Rightarrow> Some (n, w)) of
           None \<Rightarrow> None
         | Some (sz, w1) \<Rightarrow>
             (case in_waiting w1 of
                (available, w2) \<Rightarrow>
                  (case (if sz > available then map_option snd (wait_for_data c w2)
                         else Some w2) of
                     None \<Rightarrow> None
                   | Some w3 \<Rightarrow>
                       (case serial_read sz w3 of
                          (result, w4) \<Rightarrow> Some (Inr result, c, w4))))))"

subsection \<open>The polls of one wait\<close>

text \<open>
  The vocabulary in which the results on \<open>wait_for_data\<close> are stated. One round of the
  loop polls the device and sleeps for the poll interval; \<open>polled c w j\<close> is the world
  in which poll \<open>j\<close> takes place (the first poll is poll 0), \<open>elapsed c w j\<close> the time
  since entry at that poll, \<open>seen c w j\<close> the byte count it observes, \<open>recorded c w j\<close>
  the last non-zero count observed before it (0 when there is none), and poll \<open>j\<close> is
  \<open>settled\<close> when data has been seen before it and its count is zero or the recorded one.
\<close>

definition poll_sleep :: "client \<Rightarrow> world \<Rightarrow> world" where
  "poll_sleep c w = time_sleep (recv_interval c) (snd (in_waiting w))"

definition polled :: "client \<Rightarrow> world \<Rightarrow> nat \<Rightarrow> world" where
  "polled c w j = (poll_sleep c ^^ j) w"

definition elapsed :: "client \<Rightarrow> world \<Rightarrow> nat \<Rightarrow> real" where
  "elapsed c w j = now (polled c w j) - now w"

definition seen :: "client \<Rightarrow> world \<Rightarrow> nat \<Rightarrow> nat" where
  "seen c w j = length (rx (polled c w j))"

definition recorded :: "client \<Rightarrow> world \<Rightarrow> nat \<Rightarrow> nat" where
  "recorded c w j = last (0 # filter (\<lambda>a. a \<noteq> 0) (map (seen c w) [0..<j]))"

definition settled :: "client \<Rightarrow> world \<Rightarrow> nat \<Rightarrow> bool" where
  "settled c w j \<longleftrightarrow>
     recorded c w j \<noteq> 0 \<and> (seen c w j = 0 \<or> seen c w j = recorded c w j)"

subsection \<open>Concrete inputs\<close>

text \<open>
  The constructor's defaults: 19200 baud, 8 data bits, 1 stop bit, timeout 3 s. The
  timing values of the client are binary64 numbers: the floats nearest to 1/1920
  (written 0.0005208333333333333), 1/480, 1/1280 and 0.001823.
\<close>

definition params0 :: CommParams where
  "params0 = \<lparr>host = ''/dev/ttyUSB0'', baudrate = 19200, bytesize = 8, parity = ''N'',
      stopbits = PyInt 1, handle_local_echo = False, comm_name = ''comm'',
      reconnect_delay = 0.1, reconnect_delay_max = 300, timeout_connect = 3\<rparr>"

definition client0 :: client where
  "client0 = \<lparr>comm_params = params0, socket = None, last_frame_end = None,
      t0 = 4803839602528529 / 9223372036854775808,
      recv_interval = 4803839602528529 / 2305843009213693952,
      inter_byte_timeout = 3602879701896397 / 4611686018427387904,
      silent_interval = 1050887951449141 / 576460752303423488, state = IDLE\<rparr>"

definition serial0 :: Serial where
  "serial0 = \<lparr>url = ''/dev/ttyUSB0'', timeout = 3, port_bytesize = 8,
      port_stopbits = PyInt 1, port_baudrate = 19200, port_parity = ''N'', exclusive = True,
      port_inter_byte_timeout = 3602879701896397 / 4611686018427387904\<rparr>"

definition connected0 :: client where
  "connected0 = client0\<lparr>socket := Some serial0\<rparr>"

text \<open>
  A slow line with a short timeout: 300 baud, timeout 0.5 s. The timing values are the
  floats nearest to 1/30, 2/15, 1/20 and 0.116667.
\<close>

definition slow_params :: CommParams where
  "slow_params = params0\<lparr>baudrate := 300, timeout_connect := 1 / 2\<rparr>"

definition slow_client :: client where
  "slow_client = \<lparr>comm_params = slow_params,
      socket = Some (serial0\<lparr>timeout := 1 / 2, port_baudrate := 300,
                               port_inter_byte_timeout := 3602879701896397 / 72057594037927936\<rparr>),
      last_frame_end = None, t0 = 4803839602528529 / 144115188075855872,
      recv_interval = 4803839602528529 / 36028797018963968,
      inter_byte_timeout = 3602879701896397 / 72057594037927936,
      silent_interval = 8406743323622939 / 72057594037927936, state = IDLE\<rparr>"

text \<open>An idle device on a silent line, whose writes report the length of the payload.\<close>

definition world0 :: world where
  "world0 = \<lparr>now = 0, rx = [], line = (\<lambda>k b. b), waits = 0, fault = (\<lambda>k. None),
      write_reports = (\<lambda>b. Some (length b)), calls = [], logged = []\<rparr>"

text \<open>Two stale bytes in the receive buffer.\<close>

definition stale_world :: world where
  "stale_world = world0\<lparr>rx := [17, 34]\<rparr>"

text \<open>A reply of eight bytes: four arrive during each of the first two waits.\<close>

definition frame_chunk :: "nat \<Rightarrow> bytes" where
  "frame_chunk k = (if k < 2 then [1, 3, 2, 0] else [])"

definition frame_world :: world where
  "frame_world = world0\<lparr>line := (\<lambda>k b. b @ frame_chunk k)\<rparr>"

text \<open>A reply of 32 bytes: four arrive during each of the first eight waits.\<close>

definition growing_chunk :: "nat \<Rightarrow> bytes" where
  "growing_chunk k = (if k < 8 then [1, 2, 3, 4] else [])"

definition growing_world :: world where
  "growing_world = world0\<lparr>line := (\<lambda>k b. b @ growing_chunk k)\<rparr>"

text \<open>Six bytes in the receive buffer, on a silent line.\<close>

definition buffered_world :: world where
  "buffered_world = world0\<lparr>rx := [1, 3, 2, 0, 7, 7]\<rparr>"

text \<open>Two bytes of a reply in the buffer; the other six arrive during the first wait.\<close>

definition partial_chunk :: "nat \<Rightarrow> bytes" where
  "partial_chunk k = (if k < 1 then [2, 0, 1, 3, 2, 0] else [])"

definition partial_world :: world where
  "partial_world = world0\<lparr>rx := [1, 3], line := (\<lambda>k b. b @ partial_chunk k)\<rparr>"

text \<open>A port that cannot be opened, and one that opens but rejects its configuration.\<close>

definition refused_world :: world where
  "refused_world = world0\<lparr>fault := (\<lambda>k. if k = 0 then Some ''could not open port'' else None)\<rparr>"

definition misconfigured_world :: world where
  "misconfigured_world = world0\<lparr>fault := (\<lambda>k. if k = 1 then Some ''Not a valid timeout'' else None)\<rparr>"

text \<open>
  A port that opens, and whose device then fails: the configuration is rejected, and so
  is the closing of the port.
\<close>

definition unplugged_world :: world where
  "unplugged_world =
     world0\<lparr>fault := (\<lambda>k. if k = 1 then Some ''could not configure port''
                          else if k = 2 then Some ''Input/output error'' else None)\<rparr>"

text \<open>
  Further parameters: a byte size of \<open>2\<^sup>1\<^sup>0\<^sup>2\<^sup>3 - 2\<close> at 1 baud; 115200 baud; 1600 baud with
  2 stop bits; 9600 baud with 7 data bits and 1.5 stop bits.
\<close>

definition huge_byte_params :: CommParams where
  "huge_byte_params = params0\<lparr>baudrate := 1, bytesize := 2 ^ 1023 - 2\<rparr>"

definition fast_params :: CommParams where
  "fast_params = params0\<lparr>baudrate := 115200\<rparr>"

definition two_stop_params :: CommParams where
  "two_stop_params = params0\<lparr>baudrate := 1600, stopbits := PyInt 2\<rparr>"

definition half_stop_params :: CommParams where
  "half_stop_params = params0\<lparr>baudrate := 9600, bytesize := 7, stopbits := PyFloat (3 / 2)\<rparr>"

section \<open>Binary64 arithmetic\<close>

subsection \<open>The binary exponent\<close>

lemma bit_length_bounds:
  "0 < n \<Longrightarrow> 2 ^ (bit_length n - 1) \<le> n \<and> n < 2 ^ bit_length n"
proof (induction n rule: bit_length.induct)
  case (1 n)
  show ?case
  proof (cases "n div 2 = 0")
    case True
    with "1.prems" have "n = 1" by (simp add: div_eq_0_iff)
    then show ?thesis by (simp add: bit_length.simps)
  next
    case False
    then have pos: "0 < n div 2" by simp
    from "1.IH" [OF _ pos] "1.prems"
    have ih: "2 ^ (bit_length (n div 2) - 1) \<le> n div 2" "n div 2 < 2 ^ bit_length (n div 2)"
      by simp_all
    have bl: "bit_length n = Suc (bit_length (n div 2))"
      using "1.prems" by (subst bit_length.simps) simp
    have "0 < bit_length (n div 2)"
      using pos by (subst bit_length.simps) simp
    then obtain k where k: "bit_length (n div 2) = Suc k" by (cases "bit_length (n div 2)") simp_all
    have "2 * 2 ^ k \<le> 2 * (n div 2)" using ih(1) k by simp
    also have "\<dots> \<le> n" by simp
    finally have lo: "2 ^ (bit_length n - 1) \<le> n" by (simp add: bl k)
    have "n < 2 * (n div 2) + 2" by presburger
    also have "\<dots> \<le> 2 * 2 ^ bit_length (n div 2)" using ih(2) by simp
    finally have "n < 2 ^ bit_length n" by (simp add: bl)
    with lo show ?thesis by simp
  qed
qed

lemma exponent_bounds:
  assumes "x \<noteq> 0"
  shows "2 powi exponent x \<le> \<bar>x\<bar> \<and> \<bar>x\<bar> < 2 powi (exponent x + 1)"
proof -
  obtain p q where pq: "quotient_of \<bar>x\<bar> = (p, q)" by (cases "quotient_of \<bar>x\<bar>")
  then have q: "0 < q" and x: "\<bar>x\<bar> = of_int p / of_int q"
    by (simp_all add: quotient_of_denom_pos quotient_of_div)
  have p: "0 < p"
  proof -
    have "0 < \<bar>x\<bar>" using assms by simp
    then have "0 < (of_int p :: rat) / of_int q" using x by simp
    then show ?thesis using q by (simp add: zero_less_divide_iff)
  qed
  define bp where "bp = bit_length (nat p)"
  define bq where "bq = bit_length (nat q)"
  define k where "k = int bp - int bq"
  from bit_length_bounds [of "nat p"] p
  have "2 ^ (bp - 1) \<le> nat p" "nat p < 2 ^ bp" by (simp_all add: bp_def)
  then have "int (2 ^ (bp - 1)) \<le> p" "p < int (2 ^ bp)"
    using p by linarith+
  then have "(of_int (int (2 ^ (bp - 1))) :: rat) \<le> of_int p" "(of_int p :: rat) < of_int (int (2 ^ bp))"
    by (simp_all only: of_int_le_iff of_int_less_iff)
  then have P: "(2::rat) ^ (bp - 1) \<le> of_int p" "of_int p < (2::rat) ^ bp"
    by simp_all
  from bit_length_bounds [of "nat q"] q
  have "2 ^ (bq - 1) \<le> nat q" "nat q < 2 ^ bq" by (simp_all add: bq_def)
  then have "int (2 ^ (bq - 1)) \<le> q" "q < int (2 ^ bq)"
    using q by linarith+
  then have "(of_int (int (2 ^ (bq - 1))) :: rat) \<le> of_int q" "(of_int q :: rat) < of_int (int (2 ^ bq))"
    by (simp_all only: of_int_le_iff of_int_less_iff)
  then have Q: "(2::rat) ^ (bq - 1) \<le> of_int q" "of_int q < (2::rat) ^ bq"
    by simp_all
  have bp0: "0 < bp" using \<open>nat p < 2 ^ bp\<close> p by (cases bp) simp_all
  have bq0: "0 < bq" using \<open>nat q < 2 ^ bq\<close> q by (cases bq) simp_all
  have up: "\<bar>x\<bar> < 2 powi (k + 1)"
  proof -
    have "of_int p / of_int q < (2::rat) ^ bp / 2 ^ (bq - 1)"
      using P(2) Q(1) p q by (intro frac_less) simp_all
    also have "\<dots> = 2 powi int bp / 2 powi int (bq - 1)" by simp
    also have "\<dots> = 2 powi (int bp - int (bq - 1))"
      by (simp add: power_int_diff)
    also have "int bp - int (bq - 1) = k + 1" using bq0 by (simp add: k_def of_nat_diff)
    finally show ?thesis using x by simp
  qed
  have lo: "2 powi (k - 1) \<le> \<bar>x\<bar>"
  proof -
    obtain b where b: "bp = Suc b" using bp0 by (cases bp) simp_all
    have "k - 1 = int b - int bq" by (simp add: k_def b)
    then have "(2::rat) powi (k - 1) = 2 powi int b / 2 powi int bq"
      by (simp add: power_int_diff)
    then have "2 powi (k - 1) = (2::rat) ^ (bp - 1) / 2 ^ bq"
      by (simp add: b)
    also have "\<dots> \<le> of_int p / of_int q"
      using P(1) Q(2) p q by (intro frac_le) simp_all
    finally show ?thesis using x by simp
  qed
  have e: "exponent x = (if 2 powi k \<le> \<bar>x\<bar> then k else k - 1)"
    by (simp add: exponent_def pq Let_def k_def bp_def bq_def)
  show ?thesis
  proof (cases "2 powi k \<le> \<bar>x\<bar>")
    case True
    then show ?thesis using up e by simp
  next
    case False
    then show ?thesis using lo e by simp
  qed
qed

lemma powi_less_cancel:
  assumes "(2::rat) powi a < 2 powi b"
  shows "a < b"
proof (rule ccontr)
  assume "\<not> a < b"
  then have "b \<le> a" by simp
  then have "(2::rat) powi b \<le> 2 powi a" by (intro power_int_increasing) simp_all
  with assms show False by simp
qed

lemma exponent_eqI:
  assumes "2 powi k \<le> \<bar>x\<bar>" and "\<bar>x\<bar> < 2 powi (k + 1)"
  shows "exponent x = k"
proof -
  have "(0::rat) < 2 powi k" by simp
  with assms(1) have "0 < \<bar>x\<bar>" by linarith
  then have "x \<noteq> 0" by simp
  from exponent_bounds [OF this]
  have b: "2 powi exponent x \<le> \<bar>x\<bar>" "\<bar>x\<bar> < 2 powi (exponent x + 1)" by simp_all
  have "(2::rat) powi k < 2 powi (exponent x + 1)" using assms(1) b(2) by simp
  then have 1: "k < exponent x + 1" by (rule powi_less_cancel)
  have "(2::rat) powi exponent x < 2 powi (k + 1)" using assms(2) b(1) by simp
  then have 2: "exponent x < k + 1" by (rule powi_less_cancel)
  from 1 2 show ?thesis by simp
qed

subsection \<open>Rounding to an integer\<close>

lemma floor_rat_numeral [simp]:
  "\<lfloor>(numeral a :: rat) / numeral b\<rfloor> = numeral a div numeral b"
  "\<lfloor>- (numeral a :: rat) / numeral b\<rfloor> = - numeral a div numeral b"
  using floor_divide_of_int_eq [of "numeral a" "numeral b", where ?'a = rat]
    floor_divide_of_int_eq [of "- numeral a" "numeral b", where ?'a = rat]
  by simp_all

lemma round_half_even_near:
  "\<bar>of_int (round_half_even r) - r\<bar> \<le> 1 / 2"
proof -
  have "of_int \<lfloor>r\<rfloor> \<le> r" "r < of_int \<lfloor>r\<rfloor> + 1" by linarith+
  then show ?thesis by (auto simp: round_half_even_def Let_def)
qed

lemma round_half_even_eqI:
  assumes "\<bar>r - of_int m\<bar> < 1 / 2 \<or> (\<bar>r - of_int m\<bar> = 1 / 2 \<and> even m)"
  shows "round_half_even r = m"
proof -
  define f where "f = \<lfloor>r\<rfloor>"
  have f: "of_int f \<le> r" "r < of_int f + 1" unfolding f_def by linarith+
  have rhe: "round_half_even r
      = (if r - of_int f < 1 / 2 then f else if 1 / 2 < r - of_int f then f + 1
         else if even f then f else f + 1)"
    by (simp add: round_half_even_def Let_def f_def)
  from assms show ?thesis
  proof
    assume a: "\<bar>r - of_int m\<bar> < 1 / 2"
    then have "of_int m - 1 / 2 < r" "r < of_int m + 1 / 2" by linarith+
    with f have "(of_int m :: rat) < of_int f + 3 / 2" "(of_int f :: rat) < of_int m + 1 / 2"
      by linarith+
    then have "(of_int (2 * m) :: rat) < of_int (2 * f + 3)" "(of_int (2 * f) :: rat) < of_int (2 * m + 1)"
      by simp_all
    then have "2 * m < 2 * f + 3" "2 * f < 2 * m + 1" by (simp_all only: of_int_less_iff)
    then have mf: "m = f \<or> m = f + 1" by presburger
    then show ?thesis
    proof
      assume "m = f"
      with a f have "r - of_int f < 1 / 2" by simp
      then show ?thesis using \<open>m = f\<close> by (simp add: rhe)
    next
      assume m: "m = f + 1"
      with a have "\<bar>r - (of_int f + 1)\<bar> < 1 / 2" by simp
      then have "1 / 2 < r - of_int f" by linarith
      then show ?thesis using m by (simp add: rhe)
    qed
  next
    assume a: "\<bar>r - of_int m\<bar> = 1 / 2 \<and> even m"
    then have "r = of_int m + 1 / 2 \<or> r = of_int m - 1 / 2" by linarith
    then show ?thesis
    proof
      assume r: "r = of_int m + 1 / 2"
      then have fm: "f = m" unfolding f_def by (simp add: floor_unique)
      have d: "r - of_int f = 1 / 2" using r fm by simp
      have "round_half_even r = (if even f then f else f + 1)"
        unfolding rhe d by simp
      then show ?thesis using fm a by simp
    next
      assume r: "r = of_int m - 1 / 2"
      then have fm: "f = m - 1" unfolding f_def by (simp add: floor_unique)
      have d: "r - of_int f = 1 / 2" using r fm by simp
      have "round_half_even r = (if even f then f else f + 1)"
        unfolding rhe d by simp
      then show ?thesis using fm a by simp
    qed
  qed
qed

lemma round_half_even_floor:
  "\<lfloor>r\<rfloor> \<le> round_half_even r" "round_half_even r \<le> \<lfloor>r\<rfloor> + 1"
  by (simp_all add: round_half_even_def Let_def)

lemma round_half_even_le:
  assumes "r \<le> of_int N"
  shows "round_half_even r \<le> N"
proof (cases "\<lfloor>r\<rfloor> = N")
  case True
  have "of_int \<lfloor>r\<rfloor> \<le> r" by simp
  with assms True have "r - of_int \<lfloor>r\<rfloor> < 1 / 2" by simp
  then show ?thesis using True by (simp add: round_half_even_def Let_def)
next
  case False
  have "\<lfloor>r\<rfloor> \<le> N" using assms by (simp add: floor_le_iff)
  with False have "\<lfloor>r\<rfloor> + 1 \<le> N" by simp
  with round_half_even_floor(2) [of r] show ?thesis by simp
qed

lemma round_half_even_ge:
  assumes "of_int N \<le> r"
  shows "N \<le> round_half_even r"
proof -
  have "N \<le> \<lfloor>r\<rfloor>" using assms by (simp add: le_floor_iff)
  with round_half_even_floor(1) [of r] show ?thesis by simp
qed

lemma round_half_even_abs_le:
  assumes "\<bar>r\<bar> \<le> of_int N"
  shows "\<bar>round_half_even r\<bar> \<le> N"
proof -
  have "r \<le> of_int N" "of_int (- N) \<le> r" using assms by simp_all
  then have "round_half_even r \<le> N" "- N \<le> round_half_even r"
    using round_half_even_le [of r N] round_half_even_ge [of "- N" r] by blast+
  then show ?thesis by simp
qed

lemma powi_le_cancel:
  assumes "(2::rat) powi a \<le> 2 powi b"
  shows "a \<le> b"
proof (rule ccontr)
  assume "\<not> a \<le> b"
  then have "b < a" by simp
  then have "(2::rat) powi b < 2 powi a" by (intro power_int_strict_increasing) simp_all
  with assms show False by simp
qed

lemma round_half_even_abs_ge:
  assumes "of_int N \<le> \<bar>r\<bar>"
  shows "N \<le> \<bar>round_half_even r\<bar>"
proof (cases "0 \<le> r")
  case True
  with assms have "of_int N \<le> r" by simp
  then have "N \<le> round_half_even r" by (rule round_half_even_ge)
  then show ?thesis by simp
next
  case False
  with assms have "r \<le> of_int (- N)" by simp
  then have "round_half_even r \<le> - N" by (rule round_half_even_le)
  then show ?thesis by simp
qed

subsection \<open>Rounding to a float\<close>

text \<open>
  The characterisation by which a value of \<open>binary64\<close> is checked: the exponent \<open>e\<close>, the
  unit \<open>2\<^sup>u\<close> and the significand \<open>m\<close> are given, and arithmetic on numerals does the rest.
\<close>

lemma binary64_eqI:
  assumes "2 powi e \<le> \<bar>x\<bar>" and "\<bar>x\<bar> < 2 powi (e + 1)"
    and "u = max e (- 1022) - 52"
    and "\<bar>x / 2 powi u - of_int m\<bar> < 1 / 2
         \<or> (\<bar>x / 2 powi u - of_int m\<bar> = 1 / 2 \<and> even m)"
    and "y = of_int m * 2 powi u" and "\<bar>y\<bar> < 2 ^ 1024"
  shows "binary64 x = Some y"
proof -
  have e: "exponent x = e" using assms(1,2) by (rule exponent_eqI)
  have "(0::rat) < 2 powi e" by simp
  with assms(1) have "0 < \<bar>x\<bar>" by linarith
  then have x: "x \<noteq> 0" by simp
  have m: "round_half_even (x / 2 powi u) = m" using assms(4) by (rule round_half_even_eqI)
  show ?thesis
    using x assms(6) by (simp add: binary64_def e m Let_def assms(3)[symmetric] assms(5)[symmetric])
qed

lemma binary64_bounded:
  assumes "\<bar>x\<bar> \<le> 2 ^ K" and "K \<le> 1023"
  shows "\<exists>y. binary64 x = Some y \<and> \<bar>y\<bar> \<le> 2 ^ K"
proof (cases "x = 0")
  case True
  then show ?thesis by (simp add: binary64_def)
next
  case False
  define u where "u = max (exponent x) (- 1022) - 52"
  define m where "m = round_half_even (x / 2 powi u)"
  define y where "y = (of_int m :: rat) * 2 powi u"
  from exponent_bounds [OF False] assms(1)
  have "(2::rat) powi exponent x \<le> 2 powi int K" by simp
  then have "exponent x \<le> int K" by (rule powi_le_cancel)
  then have uK: "u \<le> int K" by (simp add: u_def)
  define N :: int where "N = 2 ^ nat (int K - u)"
  have N: "(of_int N :: rat) = 2 powi (int K - u)"
    using uK by (simp add: N_def power_int_def)
  have pos: "(0::rat) < 2 powi u" by simp
  have "\<bar>x / 2 powi u\<bar> = \<bar>x\<bar> / 2 powi u" using pos by (simp add: abs_divide)
  also have "\<dots> \<le> 2 ^ K / 2 powi u"
    using assms(1) pos by (intro divide_right_mono) simp_all
  also have "\<dots> = 2 powi int K / 2 powi u" by simp
  also have "\<dots> = of_int N" by (simp add: N power_int_diff)
  finally have "\<bar>m\<bar> \<le> N" unfolding m_def by (rule round_half_even_abs_le)
  then have "(of_int \<bar>m\<bar> :: rat) \<le> of_int N" by (simp only: of_int_le_iff)
  then have "\<bar>of_int m :: rat\<bar> * 2 powi u \<le> of_int N * 2 powi u"
    using pos by (intro mult_right_mono) simp_all
  also have "\<dots> = 2 powi (int K - u) * 2 powi u" by (simp only: N)
  also have "\<dots> = 2 powi (int K - u + u)" by (rule power_int_add [symmetric]) simp
  also have "\<dots> = 2 ^ K" by simp
  finally have yK: "\<bar>y\<bar> \<le> 2 ^ K" using pos by (simp add: y_def abs_mult)
  have "(2::rat) ^ K \<le> 2 ^ 1023" using assms(2) by (intro power_increasing) simp_all
  also have "\<dots> < 2 ^ 1024" by simp
  finally have "\<bar>y\<bar> < 2 ^ 1024" using yK by simp
  then have "binary64 x = Some y"
    using False by (simp add: binary64_def Let_def u_def [symmetric] m_def [symmetric] y_def [symmetric])
  with yK show ?thesis by simp
qed

lemma binary64_normal_ge:
  assumes "x \<noteq> 0" and "- 1022 \<le> exponent x" and "u = exponent x - 52"
  shows "2 powi exponent x \<le> \<bar>of_int (round_half_even (x / 2 powi u)) * 2 powi u :: rat\<bar>"
proof -
  have pos: "(0::rat) < 2 powi u" by simp
  have "(of_int (2 ^ 52) :: rat) = 2 powi (exponent x - u)" by (simp add: assms(3))
  also have "\<dots> = 2 powi exponent x / 2 powi u" by (simp add: power_int_diff)
  also have "\<dots> \<le> \<bar>x\<bar> / 2 powi u"
    using exponent_bounds [OF assms(1)] pos by (intro divide_right_mono) simp_all
  also have "\<dots> = \<bar>x / 2 powi u\<bar>" using pos by (simp add: abs_divide)
  finally have "2 ^ 52 \<le> \<bar>round_half_even (x / 2 powi u)\<bar>"
    by (rule round_half_even_abs_ge)
  then have "(of_int (2 ^ 52) :: rat) \<le> of_int \<bar>round_half_even (x / 2 powi u)\<bar>"
    by (simp only: of_int_le_iff)
  then have A: "(2 ^ 52 :: rat) * 2 powi u
                  \<le> \<bar>of_int (round_half_even (x / 2 powi u))\<bar> * 2 powi u"
    using pos by (intro mult_right_mono) simp_all
  have "(2::rat) powi exponent x = 2 powi (52 + u)" by (simp add: assms(3))
  also have "\<dots> = 2 powi 52 * 2 powi u" by (rule power_int_add) simp
  also have "\<dots> = 2 ^ 52 * 2 powi u" by simp
  also note A
  also have "\<bar>of_int (round_half_even (x / 2 powi u))\<bar> * 2 powi u
               = \<bar>of_int (round_half_even (x / 2 powi u)) * 2 powi u :: rat\<bar>"
    using pos by (simp add: abs_mult)
  finally show ?thesis .
qed

lemma binary64_ge_one:
  assumes "1 \<le> \<bar>x\<bar>" and "binary64 x = Some y"
  shows "1 \<le> \<bar>y\<bar>"
proof -
  have x: "x \<noteq> 0" using assms(1) by auto
  from exponent_bounds [OF x] assms(1)
  have "(2::rat) powi 0 < 2 powi (exponent x + 1)" by simp
  then have e: "0 \<le> exponent x" using powi_less_cancel [of 0 "exponent x + 1"] by simp
  define u where "u = exponent x - 52"
  have u': "max (exponent x) (- 1022) - 52 = u" using e by (simp add: u_def)
  have "(1::rat) = 2 powi 0" by simp
  also have "\<dots> \<le> 2 powi exponent x" using e by (intro power_int_increasing) simp_all
  also have "\<dots> \<le> \<bar>of_int (round_half_even (x / 2 powi u)) * 2 powi u :: rat\<bar>"
    using x e by (intro binary64_normal_ge) (simp_all add: u_def)
  finally have "1 \<le> \<bar>of_int (round_half_even (x / 2 powi u)) * 2 powi u :: rat\<bar>" .
  moreover have "y = of_int (round_half_even (x / 2 powi u)) * 2 powi u"
    using assms(2) x by (simp add: binary64_def Let_def u' split: if_splits)
  ultimately show ?thesis by simp
qed

lemma binary64_overflow:
  assumes "2 ^ 1024 \<le> \<bar>x\<bar>"
  shows "binary64 x = None"
proof -
  have "(0::rat) < 2 ^ 1024" by simp
  with assms have x: "x \<noteq> 0" by auto
  from exponent_bounds [OF x] assms
  have "(2::rat) powi 1024 < 2 powi (exponent x + 1)" by simp
  then have e: "1024 \<le> exponent x" using powi_less_cancel [of 1024 "exponent x + 1"] by simp
  define u where "u = exponent x - 52"
  have u': "max (exponent x) (- 1022) - 52 = u" using e by (simp add: u_def)
  have "(2::rat) ^ 1024 = 2 powi 1024" by simp
  also have "\<dots> \<le> 2 powi exponent x" using e by (intro power_int_increasing) simp_all
  also have "\<dots> \<le> \<bar>of_int (round_half_even (x / 2 powi u)) * 2 powi u :: rat\<bar>"
    using x e by (intro binary64_normal_ge) (simp_all add: u_def)
  finally show ?thesis using x by (simp add: binary64_def Let_def u')
qed

subsection \<open>The floats of the examples\<close>

lemma binary64_value_0:
  "binary64 (1 / 11520) = Some (6405119470038039 / 73786976294838206464)"
  by (rule binary64_eqI [where e = "- 14" and u = "- 66" and m = 6405119470038039])
     (simp_all add: power_int_minus_divide)

lemma binary64_value_1:
  "binary64 (6405119470038039 / 18446744073709551616) = Some (6405119470038039 / 18446744073709551616)"
  by (rule binary64_eqI [where e = "- 12" and u = "- 64" and m = 6405119470038039])
     (simp_all add: power_int_minus_divide)

lemma binary64_value_2:
  "binary64 (1 / 1920) = Some (4803839602528529 / 9223372036854775808)"
  by (rule binary64_eqI [where e = "- 11" and u = "- 63" and m = 4803839602528529])
     (simp_all add: power_int_minus_divide)

lemma binary64_value_3:
  "binary64 (14411518807585587 / 18446744073709551616) = Some (3602879701896397 / 4611686018427387904)"
  by (rule binary64_eqI [where e = "- 11" and u = "- 63" and m = 7205759403792794])
     (simp_all add: power_int_minus_divide)

lemma binary64_value_4:
  "binary64 (19 / 19200) = Some (4563647622402103 / 4611686018427387904)"
  by (rule binary64_eqI [where e = "- 10" and u = "- 62" and m = 4563647622402103])
     (simp_all add: power_int_minus_divide)

lemma binary64_value_5:
  "binary64 (1 / 1000) = Some (1152921504606847 / 1152921504606846976)"
  by (rule binary64_eqI [where e = "- 10" and u = "- 62" and m = 4611686018427388])
     (simp_all add: power_int_minus_divide)

lemma binary64_value_6:
  "binary64 (13690942867206309 / 9223372036854775808) = Some (3422735716801577 / 2305843009213693952)"
  by (rule binary64_eqI [where e = "- 10" and u = "- 62" and m = 6845471433603154])
     (simp_all add: power_int_minus_divide)

lemma binary64_value_7:
  "binary64 (7 / 4000) = Some (8070450532247929 / 4611686018427387904)"
  by (rule binary64_eqI [where e = "- 10" and u = "- 62" and m = 8070450532247929])
     (simp_all add: power_int_minus_divide)

lemma binary64_value_8:
  "binary64 (33626877217699703 / 18446744073709551616) = Some (4203359652212463 / 2305843009213693952)"
  by (rule binary64_eqI [where e = "- 10" and u = "- 62" and m = 8406719304424926])
     (simp_all add: power_int_minus_divide)

lemma binary64_value_9:
  "binary64 (1823 / 1000000) = Some (1050887951449141 / 576460752303423488)"
  by (rule binary64_eqI [where e = "- 10" and u = "- 62" and m = 8407103611593128])
     (simp_all add: power_int_minus_divide)

lemma binary64_value_10:
  "binary64 (4803839602528529 / 2305843009213693952) = Some (4803839602528529 / 2305843009213693952)"
  by (rule binary64_eqI [where e = "- 9" and u = "- 61" and m = 4803839602528529])
     (simp_all add: power_int_minus_divide)

lemma binary64_value_11:
  "binary64 (31945533356814721 / 9223372036854775808) = Some (249574479350115 / 72057594037927936)"
  by (rule binary64_eqI [where e = "- 9" and u = "- 61" and m = 7986383339203680])
     (simp_all add: power_int_minus_divide)

lemma binary64_value_12:
  "binary64 (433 / 125000) = Some (1996860045979059 / 576460752303423488)"
  by (rule binary64_eqI [where e = "- 9" and u = "- 61" and m = 7987440183916236])
     (simp_all add: power_int_minus_divide)

lemma binary64_value_13:
  "binary64 (4563647622402103 / 1152921504606846976) = Some (4563647622402103 / 1152921504606846976)"
  by (rule binary64_eqI [where e = "- 8" and u = "- 60" and m = 4563647622402103])
     (simp_all add: power_int_minus_divide)

lemma binary64_value_14:
  "binary64 (11 / 1600) = Some (7926335344172073 / 1152921504606846976)"
  by (rule binary64_eqI [where e = "- 8" and u = "- 60" and m = 7926335344172073])
     (simp_all add: power_int_minus_divide)

lemma binary64_value_15:
  "binary64 (23779006032516219 / 2305843009213693952) = Some (5944751508129055 / 576460752303423488)"
  by (rule binary64_eqI [where e = "- 7" and u = "- 59" and m = 5944751508129055])
     (simp_all add: power_int_minus_divide)

lemma binary64_value_16:
  "binary64 (55484347409204511 / 2305843009213693952) = Some (1733885856537641 / 72057594037927936)"
  by (rule binary64_eqI [where e = "- 6" and u = "- 58" and m = 6935543426150564])
     (simp_all add: power_int_minus_divide)

lemma binary64_value_17:
  "binary64 (24063 / 1000000) = Some (433480471333665 / 18014398509481984)"
  by (rule binary64_eqI [where e = "- 6" and u = "- 58" and m = 6935687541338640])
     (simp_all add: power_int_minus_divide)

lemma binary64_value_18:
  "binary64 (7926335344172073 / 288230376151711744) = Some (7926335344172073 / 288230376151711744)"
  by (rule binary64_eqI [where e = "- 6" and u = "- 58" and m = 7926335344172073])
     (simp_all add: power_int_minus_divide)

lemma binary64_value_19:
  "binary64 (1 / 30) = Some (4803839602528529 / 144115188075855872)"
  by (rule binary64_eqI [where e = "- 5" and u = "- 57" and m = 4803839602528529])
     (simp_all add: power_int_minus_divide)

lemma binary64_value_20:
  "binary64 (14411518807585587 / 288230376151711744) = Some (3602879701896397 / 72057594037927936)"
  by (rule binary64_eqI [where e = "- 5" and u = "- 57" and m = 7205759403792794])
     (simp_all add: power_int_minus_divide)

lemma binary64_value_21:
  "binary64 (33626877217699703 / 288230376151711744) = Some (4203359652212463 / 36028797018963968)"
  by (rule binary64_eqI [where e = "- 4" and u = "- 56" and m = 8406719304424926])
     (simp_all add: power_int_minus_divide)

lemma binary64_value_22:
  "binary64 (116667 / 1000000) = Some (8406743323622939 / 72057594037927936)"
  by (rule binary64_eqI [where e = "- 4" and u = "- 56" and m = 8406743323622939])
     (simp_all add: power_int_minus_divide)

lemma binary64_value_23:
  "binary64 (4803839602528529 / 36028797018963968) = Some (4803839602528529 / 36028797018963968)"
  by (rule binary64_eqI [where e = "- 3" and u = "- 55" and m = 4803839602528529])
     (simp_all add: power_int_minus_divide)

lemma binary64_value_24:
  "binary64 1 = Some 1"
  by (rule binary64_eqI [where e = "0" and u = "- 52" and m = 4503599627370496])
     (simp_all add: power_int_minus_divide)

lemma binary64_value_25:
  "binary64 (3 / 2) = Some (3 / 2)"
  by (rule binary64_eqI [where e = "0" and u = "- 52" and m = 6755399441055744])
     (simp_all add: power_int_minus_divide)

lemma binary64_value_26:
  "binary64 8 = Some 8"
  by (rule binary64_eqI [where e = "3" and u = "- 49" and m = 4503599627370496])
     (simp_all add: power_int_minus_divide)

lemma binary64_value_27:
  "binary64 (19 / 2) = Some (19 / 2)"
  by (rule binary64_eqI [where e = "3" and u = "- 49" and m = 5348024557502464])
     (simp_all add: power_int_minus_divide)

lemma binary64_value_28:
  "binary64 10 = Some 10"
  by (rule binary64_eqI [where e = "3" and u = "- 49" and m = 5629499534213120])
     (simp_all add: power_int_minus_divide)

lemma binary64_value_29:
  "binary64 11 = Some 11"
  by (rule binary64_eqI [where e = "3" and u = "- 49" and m = 6192449487634432])
     (simp_all add: power_int_minus_divide)

lemma binary64_value_30:
  "binary64 300 = Some 300"
  by (rule binary64_eqI [where e = "8" and u = "- 44" and m = 5277655813324800])
     (simp_all add: power_int_minus_divide)

lemma binary64_value_31:
  "binary64 1600 = Some 1600"
  by (rule binary64_eqI [where e = "10" and u = "- 42" and m = 7036874417766400])
     (simp_all add: power_int_minus_divide)

lemma binary64_value_32:
  "binary64 9600 = Some 9600"
  by (rule binary64_eqI [where e = "13" and u = "- 39" and m = 5277655813324800])
     (simp_all add: power_int_minus_divide)

lemma binary64_value_33:
  "binary64 19200 = Some 19200"
  by (rule binary64_eqI [where e = "14" and u = "- 38" and m = 5277655813324800])
     (simp_all add: power_int_minus_divide)

lemma binary64_value_34:
  "binary64 115200 = Some 115200"
  by (rule binary64_eqI [where e = "16" and u = "- 36" and m = 7916483719987200])
     (simp_all add: power_int_minus_divide)

lemma round_value_0:
  "round_half_even (126100789566373890625 / 72057594037927936) = 1750"
  by (simp add: round_half_even_def Let_def)

lemma round_value_1:
  "round_half_even (65677494565819734375 / 36028797018963968) = 1823"
  by (simp add: round_half_even_def Let_def)

lemma round_value_2:
  "round_half_even (3899601239845546875 / 1125899906842624) = 3464"
  by (simp add: round_half_even_def Let_def)

lemma round_value_3:
  "round_half_even (27091966508400640625 / 1125899906842624) = 24063"
  by (simp add: round_half_even_def Let_def)

lemma round_value_4:
  "round_half_even (65677494565819734375 / 562949953421312) = 116667"
  by (simp add: round_half_even_def Let_def)

lemmas binary64_values =
  binary64_value_0 binary64_value_1 binary64_value_2 binary64_value_3
  binary64_value_4 binary64_value_5 binary64_value_6 binary64_value_7
  binary64_value_8 binary64_value_9 binary64_value_10 binary64_value_11
  binary64_value_12 binary64_value_13 binary64_value_14 binary64_value_15
  binary64_value_16 binary64_value_17 binary64_value_18 binary64_value_19
  binary64_value_20 binary64_value_21 binary64_value_22 binary64_value_23
  binary64_value_24 binary64_value_25 binary64_value_26 binary64_value_27
  binary64_value_28 binary64_value_29 binary64_value_30 binary64_value_31
  binary64_value_32 binary64_value_33 binary64_value_34

lemmas round_values = round_value_0 round_value_1 round_value_2 round_value_3 round_value_4

section \<open>The timing model\<close>

subsection \<open>Operations with a finite result\<close>

lemma rnd_bounded:
  assumes "\<bar>x\<bar> \<le> 2 ^ K" and "K \<le> 1023"
  shows "\<exists>y. rnd x = Fin y \<and> \<bar>y\<bar> \<le> 2 ^ K"
  using binary64_bounded [OF assms] by (auto simp: rnd_def)

lemma float_of_int_bounded:
  assumes "\<bar>n\<bar> \<le> 2 ^ K" and "K \<le> 1023"
  shows "\<exists>y. float_of_int n = Inr y \<and> \<bar>y\<bar> \<le> 2 ^ K"
proof -
  have "(of_int \<bar>n\<bar> :: rat) \<le> of_int (2 ^ K)" using assms(1) by (simp only: of_int_le_iff)
  then have "\<bar>of_int n :: rat\<bar> \<le> 2 ^ K" by simp
  from binary64_bounded [OF this assms(2)] show ?thesis by (auto simp: float_of_int_def)
qed

lemma float_of_int_ge_one:
  assumes "n \<noteq> 0" and "float_of_int n = Inr y"
  shows "1 \<le> \<bar>y\<bar>"
proof -
  have "1 \<le> \<bar>n\<bar>" using assms(1) by simp
  then have "(of_int 1 :: rat) \<le> of_int \<bar>n\<bar>" by (simp only: of_int_le_iff)
  then have 1: "1 \<le> \<bar>of_int n :: rat\<bar>" by simp
  from assms(2) have "binary64 (of_int n) = Some y"
    by (simp add: float_of_int_def split: option.splits)
  with 1 show ?thesis by (rule binary64_ge_one)
qed

lemma fmul_bounded:
  assumes "\<bar>a\<bar> \<le> 2 ^ K" and "0 \<le> k" and "k \<le> 2 ^ j" and "K + j \<le> 1023"
  shows "\<exists>y. fmul (Fin a) k = Fin y \<and> \<bar>y\<bar> \<le> 2 ^ (K + j)"
proof -
  have "\<bar>a * k\<bar> = \<bar>a\<bar> * k" using assms(2) by (simp add: abs_mult)
  also have "\<dots> \<le> 2 ^ K * 2 ^ j" using assms(1-3) by (intro mult_mono) simp_all
  finally have "\<bar>a * k\<bar> \<le> 2 ^ (K + j)" by (simp add: power_add)
  from rnd_bounded [OF this assms(4)] show ?thesis by (simp add: fmul_def)
qed

lemma fdiv_bounded:
  assumes "\<bar>a\<bar> \<le> 2 ^ K" and "1 \<le> \<bar>b\<bar>" and "K \<le> 1023"
  shows "\<exists>y. fdiv (Fin a) b = Fin y \<and> \<bar>y\<bar> \<le> 2 ^ K"
proof -
  have "\<bar>a / b\<bar> = \<bar>a\<bar> / \<bar>b\<bar>" by simp
  also have "\<dots> \<le> \<bar>a\<bar> / 1" using assms(2) by (intro divide_left_mono) simp_all
  finally have "\<bar>a / b\<bar> \<le> 2 ^ K" using assms(1) by simp
  from rnd_bounded [OF this assms(3)] show ?thesis by (simp add: fdiv_def)
qed

lemma py_round_bounded:
  assumes "\<bar>a\<bar> \<le> 2 ^ K" and "K \<le> 1023"
  shows "\<exists>y. py_round (Fin a) 6 = Fin y \<and> \<bar>y\<bar> \<le> 2 ^ K"
proof -
  have "\<bar>a * 10 ^ 6\<bar> = \<bar>a\<bar> * 10 ^ 6" by (simp add: abs_mult)
  also have "\<dots> \<le> 2 ^ K * 10 ^ 6" using assms(1) by (intro mult_right_mono) simp_all
  also have "\<dots> = of_int (2 ^ K * 10 ^ 6)" by simp
  finally have "\<bar>round_half_even (a * 10 ^ 6)\<bar> \<le> 2 ^ K * 10 ^ 6"
    by (rule round_half_even_abs_le)
  then have "(of_int \<bar>round_half_even (a * 10 ^ 6)\<bar> :: rat) \<le> of_int (2 ^ K * 10 ^ 6)"
    by (simp only: of_int_le_iff)
  then have "\<bar>of_int (round_half_even (a * 10 ^ 6)) :: rat\<bar> \<le> 2 ^ K * 10 ^ 6" by simp
  then have "\<bar>of_int (round_half_even (a * 10 ^ 6)) / 10 ^ 6 :: rat\<bar> \<le> 2 ^ K"
    by (simp add: field_simps)
  from rnd_bounded [OF this assms(2)] show ?thesis by (simp add: py_round_def)
qed

lemma py_max_Fin: "py_max (Fin a) (Fin b) = Fin (if a < b then b else a)"
  by (simp add: py_max_def fless_def)

lemma finite_value_Fin:
  "finite_value (Fin (numeral a / numeral b)) = Some (numeral a / numeral b)"
  "finite_value (Fin (numeral a)) = Some (numeral a)"
  "finite_value (Fin 0) = Some 0"
  "finite_value PInf = None" "finite_value NInf = None"
  by (simp_all add: finite_value_def of_rat_divide)

lemmas float_ops = float_sum_def float_of_int_def fadd_def fdiv_def fmul_def py_max_def fless_def
  py_round_def rnd_def finite_value_Fin

subsection \<open>The constructor on the examples\<close>

text \<open>The literal \<^verbatim>\<open>0.001\<close> is the float just above 1/1000.\<close>

lemma rnd_millisecond: "rnd (1 / 1000) = Fin (1152921504606847 / 1152921504606846976)"
  by (simp add: rnd_def binary64_values)

lemma silent_interval_fast:
  "py_round (fdiv (Fin (7 / 4)) 1000) 6 = Fin (8070450532247929 / 4611686018427387904)"
  "py_round (rnd (175 / 100000)) 6 = Fin (8070450532247929 / 4611686018427387904)"
  by (simp_all add: float_ops binary64_values round_values)

text \<open>
  The default parameters give the client \<open>client0\<close>: \<^verbatim>\<open>t0 == 10/19200\<close>, the poll
  interval is \<^verbatim>\<open>4 * t0\<close>, the inter-byte timeout \<^verbatim>\<open>1.5 * t0\<close> and the silent interval
  \<^verbatim>\<open>0.001823\<close>, as floats.
\<close>

lemma ModbusSerialClient_params0: "ModbusSerialClient params0 = Built client0"
  by (simp add: ModbusSerialClient_def params0_def client0_def float_ops Let_def
      binary64_values round_values)

lemma ModbusSerialClient_slow_params:
  "ModbusSerialClient slow_params = Built (slow_client\<lparr>socket := None\<rparr>)"
  by (simp add: ModbusSerialClient_def slow_params_def slow_client_def params0_def float_ops
      Let_def binary64_values round_values)

lemma ModbusSerialClient_fast_params:
  "ModbusSerialClient fast_params
     = Built (client0\<lparr>comm_params := fast_params,
          t0 := 6405119470038039 / 73786976294838206464,
          recv_interval := 1152921504606847 / 1152921504606846976,
          inter_byte_timeout := 0,
          silent_interval := 8070450532247929 / 4611686018427387904\<rparr>)"
  by (simp add: ModbusSerialClient_def fast_params_def params0_def client0_def float_ops
      Let_def binary64_values round_values)

lemma ModbusSerialClient_two_stop_params:
  "ModbusSerialClient two_stop_params
     = Built (client0\<lparr>comm_params := two_stop_params,
          t0 := 7926335344172073 / 1152921504606846976,
          recv_interval := 7926335344172073 / 288230376151711744,
          inter_byte_timeout := 5944751508129055 / 576460752303423488,
          silent_interval := 433480471333665 / 18014398509481984\<rparr>)"
  by (simp add: ModbusSerialClient_def two_stop_params_def params0_def client0_def float_ops
      Let_def binary64_values round_values)

lemma ModbusSerialClient_half_stop_params:
  "ModbusSerialClient half_stop_params
     = Built (client0\<lparr>comm_params := half_stop_params,
          t0 := 4563647622402103 / 4611686018427387904,
          recv_interval := 4563647622402103 / 1152921504606846976,
          inter_byte_timeout := 3422735716801577 / 2305843009213693952,
          silent_interval := 1996860045979059 / 576460752303423488\<rparr>)"
  by (simp add: ModbusSerialClient_def half_stop_params_def params0_def client0_def float_ops
      Let_def binary64_values round_values)

text \<open>
  At 1600 baud with 2 stop bits \<^verbatim>\<open>3.5 * t0\<close> is the float just above 0.0240625, and the
  silent interval is the float \<^verbatim>\<open>0.024063\<close>; above 19200 baud it is the float
  \<^verbatim>\<open>0.00175\<close>.
\<close>

lemma silent_interval_floats:
  "rnd (24063 / 1000000) = Fin (433480471333665 / 18014398509481984)"
  "rnd (175 / 100000) = Fin (8070450532247929 / 4611686018427387904)"
  by (simp_all add: rnd_def binary64_values)

text \<open>A baud rate of 0 makes the division raise \<^verbatim>\<open>ZeroDivisionError\<close>.\<close>

lemma binary64_zero: "binary64 0 = Some 0"
  by (simp add: binary64_def)

lemma ModbusSerialClient_zero_baud:
  "ModbusSerialClient (params0\<lparr>baudrate := 0\<rparr>) = Raised ZeroDivisionError"
  by (simp add: ModbusSerialClient_def params0_def float_ops binary64_zero
      binary64_values)

text \<open>
  With a byte size of \<open>2\<^sup>1\<^sup>0\<^sup>2\<^sup>3 - 2\<close> at 1 baud the constructor returns, and the poll
  interval and the silent interval of the client are infinite.
\<close>

lemma binary64_huge:
  "binary64 (2 ^ 1023) = Some (2 ^ 1023)"
  "binary64 (3 * 2 ^ 1022) = Some (3 * 2 ^ 1022)"
  "binary64 (2 ^ 1025) = None"
  "binary64 (7 * 2 ^ 1022) = None"
proof -
  show "binary64 (2 ^ 1023) = Some (2 ^ 1023)"
    by (rule binary64_eqI [where e = 1023 and u = 971 and m = "2 ^ 52"])
       (simp_all add: power_int_minus_divide)
  show "binary64 (3 * 2 ^ 1022) = Some (3 * 2 ^ 1022)"
    by (rule binary64_eqI [where e = 1023 and u = 971 and m = "3 * 2 ^ 51"])
       (simp_all add: power_int_minus_divide)
  show "binary64 (2 ^ 1025) = None" by (rule binary64_overflow) simp
  show "binary64 (7 * 2 ^ 1022) = None" by (rule binary64_overflow) simp
qed

lemma ModbusSerialClient_huge_byte:
  "ModbusSerialClient huge_byte_params
     = BuiltInfinite (Fin (2 ^ 1023)) PInf (Fin (3 * 2 ^ 1022)) PInf"
proof -
  define H :: rat where "H = 2 ^ 1023"
  have n: "float_sum (bytesize huge_byte_params) (stopbits huge_byte_params) = Inr (Fin H)"
    using binary64_huge(1)
    by (simp add: H_def huge_byte_params_def params0_def float_sum_def float_of_int_def)
  have b: "float_of_int (baudrate huge_byte_params) = Inr 1" "\<not> 19200 < baudrate huge_byte_params"
    by (simp_all add: huge_byte_params_def float_of_int_def binary64_values)
  have t: "fdiv (Fin H) 1 = Fin H"
    using binary64_huge(1) by (simp add: H_def fdiv_def rnd_def)
  have r: "fmul (Fin H) 4 = PInf"
    using binary64_huge(3) by (simp add: H_def fmul_def rnd_def)
  have i: "fmul (Fin H) (3 / 2) = Fin (3 * 2 ^ 1022)"
    using binary64_huge(2) by (simp add: H_def fmul_def rnd_def)
  have s: "fmul (Fin H) (7 / 2) = PInf"
    using binary64_huge(4) by (simp add: H_def fmul_def rnd_def)
  have m: "py_max PInf (rnd (1 / 1000)) = PInf"
    by (simp add: py_max_def fless_def)
  have p: "py_round PInf 6 = PInf" by (simp add: py_round_def)
  have "ModbusSerialClient huge_byte_params
          = BuiltInfinite (Fin H) PInf (Fin (3 * 2 ^ 1022)) PInf"
    using b(2) by (simp add: ModbusSerialClient_def n b(1) Let_def t r i s m p finite_value_def)
  then show ?thesis unfolding H_def .
qed

subsection \<open>The claim\<close>

text \<open>
  C2 (as stated, it fails): the constructor's timing computation has a failure mode. With
  the positive baud rate \<open>10\<^sup>3\<^sup>3\<^sup>0\<close> (8 data bits, 1 stop bit) the division that computes the
  character time converts the baud rate to a float, which raises \<^verbatim>\<open>OverflowError\<close>, and
  no client is constructed.
\<close>

theorem timing_model_overflow:
  "ModbusSerialClient (params0\<lparr>baudrate := 10 ^ 330\<rparr>) = Raised OverflowError"
proof -
  have "binary64 (10 ^ 330) = None" by (rule binary64_overflow) simp
  then have "float_of_int (10 ^ 330) = Inl OverflowError" by (simp add: float_of_int_def)
  then show ?thesis
    by (simp add: ModbusSerialClient_def params0_def float_sum_def
       float_of_int_def binary64_values)
qed

subsection \<open>The claim, amended\<close>

lemma float_sum_bounded:
  assumes "\<bar>bs\<bar> \<le> 2 ^ 1000"
    and "case sb of PyInt s \<Rightarrow> \<bar>s\<bar> \<le> 2 ^ 1000 | PyFloat x \<Rightarrow> \<bar>x\<bar> \<le> 2 ^ 1000"
  shows "\<exists>n. float_sum bs sb = Inr (Fin n) \<and> \<bar>n\<bar> \<le> 2 ^ 1002"
proof (cases sb)
  case (PyInt s)
  with assms have "\<bar>1 + bs + s\<bar> \<le> 1 + 2 ^ 1000 + 2 ^ 1000" by simp
  also have "\<dots> \<le> (2::int) ^ 1002" by simp
  finally have "\<bar>1 + bs + s\<bar> \<le> 2 ^ 1002" .
  from float_of_int_bounded [OF this] show ?thesis by (auto simp: float_sum_def PyInt)
next
  case (PyFloat x)
  from assms(1) have "\<bar>1 + bs\<bar> \<le> 1 + 2 ^ 1000" by simp
  also have "\<dots> \<le> (2::int) ^ 1001" by simp
  finally have "\<bar>1 + bs\<bar> \<le> 2 ^ 1001" .
  from float_of_int_bounded [OF this]
  obtain a where a: "float_of_int (1 + bs) = Inr a" "\<bar>a\<bar> \<le> 2 ^ 1001" by auto
  from assms(2) PyFloat have "\<bar>x\<bar> \<le> 2 ^ 1000" by simp
  from rnd_bounded [OF this] obtain x' where x': "rnd x = Fin x'" "\<bar>x'\<bar> \<le> 2 ^ 1000" by auto
  have "\<bar>a + x'\<bar> \<le> 2 ^ 1001 + 2 ^ 1000" using a(2) x'(2) by linarith
  also have "\<dots> \<le> (2::rat) ^ 1002" by simp
  finally have "\<bar>a + x'\<bar> \<le> 2 ^ 1002" .
  from rnd_bounded [OF this] show ?thesis
    by (auto simp: float_sum_def PyFloat a x' fadd_def)
qed

lemma ModbusSerialClient_succeeds:
  assumes "baudrate p \<noteq> 0" and "\<bar>baudrate p\<bar> \<le> 2 ^ 1000" and "\<bar>bytesize p\<bar> \<le> 2 ^ 1000"
    and "case stopbits p of PyInt s \<Rightarrow> \<bar>s\<bar> \<le> 2 ^ 1000 | PyFloat x \<Rightarrow> \<bar>x\<bar> \<le> 2 ^ 1000"
  shows "\<exists>c. ModbusSerialClient p = Built c"
proof -
  from float_sum_bounded [OF assms(3,4)]
  obtain n where n: "float_sum (bytesize p) (stopbits p) = Inr (Fin n)" "\<bar>n\<bar> \<le> 2 ^ 1002"
    by auto
  from float_of_int_bounded [OF assms(2)]
  obtain b where b: "float_of_int (baudrate p) = Inr b" by auto
  from float_of_int_ge_one [OF assms(1) b] have b1: "1 \<le> \<bar>b\<bar>" .
  then have b0: "b \<noteq> 0" by auto
  from fdiv_bounded [OF n(2) b1]
  obtain t where t: "fdiv (Fin n) b = Fin t" "\<bar>t\<bar> \<le> 2 ^ 1002" by auto
  from fmul_bounded [OF t(2), of 4 2]
  obtain r where r: "fmul (Fin t) 4 = Fin r" by auto
  from fmul_bounded [OF t(2), of "3 / 2" 1]
  obtain i where i: "fmul (Fin t) (3 / 2) = Fin i" by auto
  from fmul_bounded [OF t(2), of "7 / 2" 2]
  obtain s where s: "fmul (Fin t) (7 / 2) = Fin s" "\<bar>s\<bar> \<le> 2 ^ (1002 + 2)" by auto
  from py_round_bounded [OF s(2)]
  obtain s' where s': "py_round (Fin s) 6 = Fin s'" by auto
  show ?thesis
    by (simp add: ModbusSerialClient_def n b b0 t r i s s' Let_def rnd_millisecond py_max_Fin
        silent_interval_fast finite_value_def)
qed

text \<open>
  C2 (amended): for every client that the constructor returns, in float arithmetic, the
  character time \<open>t0\<close> is \<^verbatim>\<open>float(1 + bytesize + stopbits) / baudrate\<close>, the poll interval
  is \<^verbatim>\<open>max(4 * t0, 0.001)\<close>; above 19200 baud the inter-byte timeout is 0 and the silent
  interval is \<^verbatim>\<open>round(0.00175, 6)\<close>, otherwise they are \<^verbatim>\<open>1.5 * t0\<close> and
  \<^verbatim>\<open>round(3.5 * t0, 6)\<close>. This holds for a client whose timing values are all finite
  (first part) and for one with an infinite timing value (second part). The computation
  is a function of the parameters. It has no failure mode when the baud rate is not 0 and
  the baud rate, the byte size and the stop bits have a magnitude of at most \<open>2\<^sup>1\<^sup>0\<^sup>0\<^sup>0\<close>: then
  the constructor returns a client with finite timing values (third part).
\<close>

theorem timing_model:
  "(ModbusSerialClient p = Built c \<longrightarrow>
      (\<exists>n b. float_sum (bytesize p) (stopbits p) = Inr n
         \<and> float_of_int (baudrate p) = Inr b \<and> b \<noteq> 0
         \<and> finite_value (fdiv n b) = Some (t0 c)
         \<and> finite_value (py_max (fmul (fdiv n b) 4) (rnd (1 / 1000))) = Some (recv_interval c)
         \<and> (if baudrate p > 19200
             then inter_byte_timeout c = 0
                \<and> finite_value (py_round (rnd (175 / 100000)) 6) = Some (silent_interval c)
             else finite_value (fmul (fdiv n b) (3 / 2)) = Some (inter_byte_timeout c)
                \<and> finite_value (py_round (fmul (fdiv n b) (7 / 2)) 6)
                    = Some (silent_interval c))))
   \<and> (ModbusSerialClient p = BuiltInfinite t ri ibt si \<longrightarrow>
      (\<exists>n b. float_sum (bytesize p) (stopbits p) = Inr n
         \<and> float_of_int (baudrate p) = Inr b \<and> b \<noteq> 0
         \<and> t = fdiv n b
         \<and> ri = py_max (fmul t 4) (rnd (1 / 1000))
         \<and> (if baudrate p > 19200
             then ibt = Fin 0 \<and> si = py_round (rnd (175 / 100000)) 6
             else ibt = fmul t (3 / 2) \<and> si = py_round (fmul t (7 / 2)) 6)))
   \<and> (baudrate p \<noteq> 0 \<and> \<bar>baudrate p\<bar> \<le> 2 ^ 1000 \<and> \<bar>bytesize p\<bar> \<le> 2 ^ 1000
        \<and> (case stopbits p of PyInt s \<Rightarrow> \<bar>s\<bar> \<le> 2 ^ 1000 | PyFloat x \<Rightarrow> \<bar>x\<bar> \<le> 2 ^ 1000)
      \<longrightarrow> (\<exists>c. ModbusSerialClient p = Built c))"
proof (intro conjI impI)
  have lit: "fdiv (Fin (7 / 4)) 1000 = rnd (175 / 100000)" by (simp add: fdiv_def)
  {
    assume "ModbusSerialClient p = Built c"
    then show "\<exists>n b. float_sum (bytesize p) (stopbits p) = Inr n
         \<and> float_of_int (baudrate p) = Inr b \<and> b \<noteq> 0
         \<and> finite_value (fdiv n b) = Some (t0 c)
         \<and> finite_value (py_max (fmul (fdiv n b) 4) (rnd (1 / 1000))) = Some (recv_interval c)
         \<and> (if baudrate p > 19200
             then inter_byte_timeout c = 0
                \<and> finite_value (py_round (rnd (175 / 100000)) 6) = Some (silent_interval c)
             else finite_value (fmul (fdiv n b) (3 / 2)) = Some (inter_byte_timeout c)
                \<and> finite_value (py_round (fmul (fdiv n b) (7 / 2)) 6)
                    = Some (silent_interval c))"
      unfolding ModbusSerialClient_def Let_def lit
      by (auto simp: finite_value_Fin split: sum.splits option.splits if_splits)
  }
  {
    assume "ModbusSerialClient p = BuiltInfinite t ri ibt si"
    then show "\<exists>n b. float_sum (bytesize p) (stopbits p) = Inr n
         \<and> float_of_int (baudrate p) = Inr b \<and> b \<noteq> 0
         \<and> t = fdiv n b
         \<and> ri = py_max (fmul t 4) (rnd (1 / 1000))
         \<and> (if baudrate p > 19200
             then ibt = Fin 0 \<and> si = py_round (rnd (175 / 100000)) 6
             else ibt = fmul t (3 / 2) \<and> si = py_round (fmul t (7 / 2)) 6)"
      unfolding ModbusSerialClient_def Let_def lit
      by (auto split: sum.splits option.splits if_splits)
  }
  {
    assume "baudrate p \<noteq> 0 \<and> \<bar>baudrate p\<bar> \<le> 2 ^ 1000 \<and> \<bar>bytesize p\<bar> \<le> 2 ^ 1000
        \<and> (case stopbits p of PyInt s \<Rightarrow> \<bar>s\<bar> \<le> 2 ^ 1000 | PyFloat x \<Rightarrow> \<bar>x\<bar> \<le> 2 ^ 1000)"
    then show "\<exists>c. ModbusSerialClient p = Built c"
      using ModbusSerialClient_succeeds [of p] by blast
  }
qed

theorem timing_model_witness:
  "ModbusSerialClient params0 = Built client0
   \<and> (\<exists>n b. float_sum (bytesize params0) (stopbits params0) = Inr n
        \<and> float_of_int (baudrate params0) = Inr b \<and> b \<noteq> 0
        \<and> finite_value (fdiv n b) = Some (4803839602528529 / 9223372036854775808)
        \<and> finite_value (py_max (fmul (fdiv n b) 4) (rnd (1 / 1000)))
            = Some (4803839602528529 / 2305843009213693952)
        \<and> finite_value (fmul (fdiv n b) (3 / 2)) = Some (3602879701896397 / 4611686018427387904)
        \<and> finite_value (py_round (fmul (fdiv n b) (7 / 2)) 6)
            = Some (1050887951449141 / 576460752303423488))
   \<and> ModbusSerialClient huge_byte_params
       = BuiltInfinite (Fin (2 ^ 1023)) PInf (Fin (3 * 2 ^ 1022)) PInf
   \<and> (\<exists>n b. float_sum (bytesize huge_byte_params) (stopbits huge_byte_params) = Inr n
        \<and> float_of_int (baudrate huge_byte_params) = Inr b \<and> b \<noteq> 0
        \<and> Fin (2 ^ 1023) = fdiv n b
        \<and> PInf = py_max (fmul (Fin (2 ^ 1023)) 4) (rnd (1 / 1000))
        \<and> Fin (3 * 2 ^ 1022) = fmul (Fin (2 ^ 1023)) (3 / 2)
        \<and> PInf = py_round (fmul (Fin (2 ^ 1023)) (7 / 2)) 6)
   \<and> baudrate params0 \<noteq> 0 \<and> \<bar>baudrate params0\<bar> \<le> 2 ^ 1000 \<and> \<bar>bytesize params0\<bar> \<le> 2 ^ 1000
   \<and> stopbits params0 = PyInt 1 \<and> \<bar>1 :: int\<bar> \<le> 2 ^ 1000
   \<and> (\<exists>c. ModbusSerialClient params0 = Built c)"
proof -
  have lo: "\<not> baudrate params0 > 19200" "\<not> baudrate huge_byte_params > 19200"
    by (simp_all add: params0_def huge_byte_params_def)
  have v: "t0 client0 = 4803839602528529 / 9223372036854775808"
    "recv_interval client0 = 4803839602528529 / 2305843009213693952"
    "inter_byte_timeout client0 = 3602879701896397 / 4611686018427387904"
    "silent_interval client0 = 1050887951449141 / 576460752303423488"
    by (simp_all add: client0_def)
  note a = timing_model [where p = params0 and c = client0, THEN conjunct1, THEN mp,
      OF ModbusSerialClient_params0, unfolded if_not_P [OF lo(1)] v]
  note b = timing_model [where p = huge_byte_params and t = "Fin (2 ^ 1023)" and ri = PInf
        and ibt = "Fin (3 * 2 ^ 1022)" and si = PInf, THEN conjunct2, THEN conjunct1, THEN mp,
      OF ModbusSerialClient_huge_byte, unfolded if_not_P [OF lo(2)]]
  have h: "baudrate params0 \<noteq> 0" "\<bar>baudrate params0\<bar> \<le> 2 ^ 1000" "\<bar>bytesize params0\<bar> \<le> 2 ^ 1000"
    "stopbits params0 = PyInt 1" "\<bar>1 :: int\<bar> \<le> 2 ^ 1000"
    by (simp_all add: params0_def)
  then have "baudrate params0 \<noteq> 0 \<and> \<bar>baudrate params0\<bar> \<le> 2 ^ 1000
      \<and> \<bar>bytesize params0\<bar> \<le> 2 ^ 1000
      \<and> (case stopbits params0 of PyInt s \<Rightarrow> \<bar>s\<bar> \<le> 2 ^ 1000 | PyFloat x \<Rightarrow> \<bar>x\<bar> \<le> 2 ^ 1000)"
    by simp
  note c = timing_model [where p = params0, THEN conjunct2, THEN conjunct2, THEN mp, OF this]
  from a b c h ModbusSerialClient_params0 ModbusSerialClient_huge_byte
  show ?thesis by (intro conjI)
qed

text \<open>The constructor never makes the poll interval shorter than a millisecond.\<close>

lemma recv_interval_positive:
  assumes "ModbusSerialClient p = Built c"
  shows "1 / 1000 \<le> recv_interval c"
proof -
  from assms obtain x where x: "finite_value (py_max x (rnd (1 / 1000))) = Some (recv_interval c)"
    unfolding ModbusSerialClient_def Let_def
    by (auto split: sum.splits option.splits if_splits)
  define k :: rat where "k = 1152921504606847 / 1152921504606846976"
  have k: "rnd (1 / 1000) = Fin k" by (simp add: k_def rnd_millisecond)
  have "\<exists>y. k \<le> y \<and> py_max x (Fin k) = Fin y"
  proof (cases x)
    case (Fin a)
    then show ?thesis by (auto simp: py_max_Fin)
  next
    case PInf
    with x k show ?thesis by (simp add: py_max_def fless_def finite_value_def)
  next
    case NInf
    then show ?thesis by (simp add: py_max_def fless_def)
  qed
  then obtain y where y: "k \<le> y" "py_max x (Fin k) = Fin y" by auto
  with x k have r: "recv_interval c = of_rat y" by (simp add: finite_value_def)
  have "(1 / 1000 :: rat) \<le> k" by (simp add: k_def)
  with y(1) have "1 / 1000 \<le> y" by linarith
  then have "(of_rat (1 / 1000) :: real) \<le> of_rat y" by (simp only: of_rat_less_eq)
  then show ?thesis by (simp add: r of_rat_divide)
qed

section \<open>The connection state\<close>

lemma client_socket_None: "socket c = None \<Longrightarrow> c\<lparr>socket := None\<rparr> = c"
  by (cases c) simp






text \<open>
  C8: \<open>connect\<close> on a client that holds a device handle returns true at once: the client
  and the world, with its record of device calls, are unchanged, so the device is not
  opened again.
\<close>

theorem connect_idempotent:
  assumes "socket c \<noteq> None"
  shows "connect c w = (Inr True, c, w)"
  using assms by (simp add: connect_def)

theorem connect_idempotent_witness:
  "socket connected0 \<noteq> None \<and> connect connected0 world0 = (Inr True, connected0, world0)"
  using connect_idempotent [of connected0 world0] by (simp add: connected0_def)

lemma connect_opens:
  "socket c = None \<Longrightarrow>
   \<exists>rest. calls (snd (snd (connect c w)))
     = calls w @ (now w, Open \<lparr>url = host (comm_params c),
           timeout = timeout_connect (comm_params c),
           port_bytesize = bytesize (comm_params c), port_stopbits = stopbits (comm_params c),
           port_baudrate = baudrate (comm_params c), port_parity = parity (comm_params c),
           exclusive = True, port_inter_byte_timeout = 0\<rparr>) # rest"
  by (auto simp: connect_def connect_except_def serial_for_url_def set_inter_byte_timeout_def
      close_def called_def Log_error_def serial_close_def Let_def split: option.splits)

text \<open>
  C9: reading \<open>connected\<close> is a call of \<open>connect\<close>: it returns, or raises, what
  \<open>connect\<close> returns or raises, and changes the client and the world as \<open>connect\<close> does.
  On a client without a handle it therefore calls the device layer to open the port,
  exclusively, with the client's communication parameters.
\<close>

theorem connected_is_connect:
  "connected c w = connect c w
   \<and> (socket c = None \<longrightarrow>
       (\<exists>rest. calls (snd (snd (connected c w)))
          = calls w @ (now w, Open \<lparr>url = host (comm_params c),
                timeout = timeout_connect (comm_params c),
                port_bytesize = bytesize (comm_params c),
                port_stopbits = stopbits (comm_params c),
                port_baudrate = baudrate (comm_params c),
                port_parity = parity (comm_params c),
                exclusive = True, port_inter_byte_timeout = 0\<rparr>) # rest))"
  using connect_opens [of c w] by (simp add: connected_def)

theorem connected_is_connect_witness:
  "socket client0 = None
   \<and> connected client0 world0 = connect client0 world0
   \<and> connected client0 world0
       = (Inr True, connected0,
          world0\<lparr>calls := [(0, Open (serial0\<lparr>port_inter_byte_timeout := 0\<rparr>)),
                           (0, SetInterByteTimeout (3602879701896397 / 4611686018427387904))]\<rparr>)"
  using connected_is_connect [of client0 world0]
  by (simp add: connected_def connect_def client0_def connected0_def world0_def serial0_def
      params0_def serial_for_url_def set_inter_byte_timeout_def called_def Let_def)

subsection \<open>A device that fails while the port is opened\<close>

text \<open>
  When the device layer raises while \<open>connect\<close> opens the port, or while it assigns the
  inter-byte timeout to the port just opened and the device then lets the port be
  closed, \<open>connect\<close> returns false, the client is left as it was, without a handle, and
  the text of the exception has been logged as an error.
\<close>

lemma connect_handles_fault:
  assumes "socket c = None"
    and "fault w (length (calls w)) = Some msg
         \<or> (fault w (length (calls w)) = None \<and> fault w (Suc (length (calls w))) = Some msg
            \<and> fault w (Suc (Suc (length (calls w)))) = None)"
  shows "fst (connect c w) = Inr False
       \<and> fst (snd (connect c w)) = c
       \<and> logged (snd (snd (connect c w))) = logged w @ [LogError msg]"
  using assms
  by (auto simp: connect_def connect_except_def serial_for_url_def set_inter_byte_timeout_def
      close_def called_def Log_error_def serial_close_def Let_def client_socket_None)

lemma connect_refused:
  "connect client0 refused_world
       = (Inr False, client0,
          refused_world\<lparr>calls := [(0, Open (serial0\<lparr>port_inter_byte_timeout := 0\<rparr>))],
                          logged := [LogError ''could not open port'']\<rparr>)"
  by (simp add: connect_def connect_except_def client0_def world0_def refused_world_def
      serial0_def params0_def serial_for_url_def set_inter_byte_timeout_def called_def
      close_def serial_close_def Log_error_def Let_def)

lemma connect_misconfigured:
  "connect client0 misconfigured_world
       = (Inr False, client0,
          misconfigured_world\<lparr>calls := [(0, Open (serial0\<lparr>port_inter_byte_timeout := 0\<rparr>)),
               (0, SetInterByteTimeout (3602879701896397 / 4611686018427387904)), (0, Close)],
             logged := [LogError ''Not a valid timeout'']\<rparr>)"
  by (simp add: connect_def connect_except_def client0_def world0_def misconfigured_world_def
      serial0_def params0_def serial_for_url_def set_inter_byte_timeout_def called_def
      close_def serial_close_def Log_error_def Let_def)

text \<open>
  C7 (the code departs from it): the handler of \<open>connect\<close> calls \<open>close\<close> outside any
  \<^verbatim>\<open>try\<close>. The port opens, the assignment of the inter-byte timeout raises, the
  exception is logged, and the device's \<^verbatim>\<open>close\<close> raises in its turn: that exception
  leaves \<open>connect\<close>, which returns nothing, and the client keeps the handle, since
  \<open>close\<close> forgets it only after the device's \<^verbatim>\<open>close\<close> has returned.
\<close>

theorem connect_raises_when_close_fails:
  "connect client0 unplugged_world
     = (Inl (DeviceError ''Input/output error''),
        client0\<lparr>socket := Some (serial0\<lparr>port_inter_byte_timeout := 0\<rparr>)\<rparr>,
        unplugged_world\<lparr>calls := [(0, Open (serial0\<lparr>port_inter_byte_timeout := 0\<rparr>)),
             (0, SetInterByteTimeout (3602879701896397 / 4611686018427387904)), (0, Close)],
           logged := [LogError ''could not configure port'']\<rparr>)"
  by (simp add: connect_def connect_except_def client0_def world0_def unplugged_world_def
      serial0_def params0_def serial_for_url_def set_inter_byte_timeout_def called_def
      close_def serial_close_def Log_error_def Let_def)

section \<open>Sending\<close>

text \<open>
  C5: on a client that holds a device handle, \<open>send\<close> of a non-empty request polls the
  receive buffer, reads and discards all the bytes it holds (logging them), so that the
  buffer is empty when the request is written, and returns what the device's write
  reports, 0 when it reports nothing; \<open>send\<close> of the empty request returns 0 and leaves
  the world as it was, with no device call.
\<close>

theorem send_drains_then_writes:
  assumes "socket c \<noteq> None"
  shows "(request \<noteq> [] \<longrightarrow>
          send start_send c request w
            = (Inr (case write_reports w request of None \<Rightarrow> 0 | Some n \<Rightarrow> n),
               c\<lparr>state := start_send (state c)\<rparr>,
               w\<lparr>rx := [],
                 calls := calls w @ (now w, InWaiting (length (rx w)))
                            # (if rx w = [] then [] else [(now w, Read (length (rx w)))])
                            @ [(now w, Write request)],
                 logged := logged w @ (if rx w = [] then [] else [LogWarning (rx w)])\<rparr>))
       \<and> send start_send c [] w = (Inr 0, c\<lparr>state := start_send (state c)\<rparr>, w)"
  using assms
  by (cases w)
     (auto simp: send_def in_waiting_def serial_read_def serial_write_def Log_warning_def
        called_def Let_def split: option.splits)

theorem send_drains_then_writes_witness:
  "socket connected0 \<noteq> None
   \<and> [1, 3, 0, 0, 0, 2] \<noteq> ([] :: bytes)
   \<and> send (\<lambda>s. SENDING) connected0 [1, 3, 0, 0, 0, 2] stale_world
       = (Inr 6, connected0\<lparr>state := SENDING\<rparr>,
          world0\<lparr>calls := [(0, InWaiting 2), (0, Read 2), (0, Write [1, 3, 0, 0, 0, 2])],
                   logged := [LogWarning [17, 34]]\<rparr>)
   \<and> send (\<lambda>s. SENDING) connected0 [] stale_world
       = (Inr 0, connected0\<lparr>state := SENDING\<rparr>, stale_world)"
  using send_drains_then_writes [of connected0 "[1, 3, 0, 0, 0, 2]" "\<lambda>s. SENDING" stale_world]
  by (simp add: connected0_def stale_world_def world0_def)

section \<open>Waiting for data\<close>

subsection \<open>One round of the loop\<close>

lemma wait_loop_exit:
  "\<not> now w - start \<le> timeout_connect (comm_params c)
   \<Longrightarrow> wait_loop c start sz m w = Some (sz, w)"
  by (subst wait_loop.simps) simp

lemma wait_loop_break:
  "now w - start \<le> timeout_connect (comm_params c) \<Longrightarrow> m
   \<Longrightarrow> length (rx w) = 0 \<or> length (rx w) = sz
   \<Longrightarrow> wait_loop c start sz m w = Some (sz, snd (in_waiting w))"
  by (subst wait_loop.simps) (auto simp: in_waiting_def)

lemma wait_loop_record:
  "now w - start \<le> timeout_connect (comm_params c)
   \<Longrightarrow> length (rx w) \<noteq> 0 \<Longrightarrow> length (rx w) \<noteq> sz
   \<Longrightarrow> wait_loop c start sz m w = wait_loop c start (length (rx w)) True (poll_sleep c w)"
  by (subst wait_loop.simps) (auto simp: in_waiting_def poll_sleep_def)

lemma wait_loop_idle:
  "now w - start \<le> timeout_connect (comm_params c) \<Longrightarrow> \<not> m
   \<Longrightarrow> length (rx w) = 0 \<or> length (rx w) = sz
   \<Longrightarrow> wait_loop c start sz m w = wait_loop c start sz m (poll_sleep c w)"
  by (subst wait_loop.simps) (auto simp: in_waiting_def poll_sleep_def)

subsection \<open>The world from poll to poll\<close>

lemma polled_0 [simp]: "polled c w 0 = w"
  by (simp add: polled_def)

lemma polled_Suc: "polled c w (Suc j) = poll_sleep c (polled c w j)"
  by (simp add: polled_def)

lemma poll_sleep_fields:
  "now (poll_sleep c w) = now w + recv_interval c"
  "rx (poll_sleep c w) = line w (waits w) (rx w)"
  "line (poll_sleep c w) = line w"
  "waits (poll_sleep c w) = Suc (waits w)"
  by (simp_all add: poll_sleep_def time_sleep_def await_def in_waiting_def called_def)

lemma now_polled: "now (polled c w j) = now w + real j * recv_interval c"
  by (induction j) (simp_all add: polled_Suc poll_sleep_fields algebra_simps)

lemma elapsed_eq: "elapsed c w j = real j * recv_interval c"
  by (simp add: elapsed_def now_polled)

lemma line_polled: "line (polled c w j) = line w"
  by (induction j) (simp_all add: polled_Suc poll_sleep_fields)

lemma waits_polled: "waits (polled c w j) = waits w + j"
  by (induction j) (simp_all add: polled_Suc poll_sleep_fields)

lemma rx_polled_Suc: "rx (polled c w (Suc j)) = line w (waits w + j) (rx (polled c w j))"
  by (simp add: polled_Suc poll_sleep_fields line_polled waits_polled)

lemma recorded_0 [simp]: "recorded c w 0 = 0"
  by (simp add: recorded_def)

lemma recorded_Suc:
  "recorded c w (Suc j) = (if seen c w j \<noteq> 0 then seen c w j else recorded c w j)"
  by (simp add: recorded_def)

lemma recorded_none: "(\<forall>i<j. seen c w i = 0) \<Longrightarrow> recorded c w j = 0"
  by (induction j) (simp_all add: recorded_Suc)

subsection \<open>The loop from poll to poll\<close>

lemma loop_exit:
  assumes "timeout_connect (comm_params c) < real j * recv_interval c"
  shows "wait_loop c (now w) (recorded c w j) (recorded c w j \<noteq> 0) (polled c w j)
           = Some (recorded c w j, polled c w j)"
  using assms by (intro wait_loop_exit) (simp add: now_polled)

lemma loop_break:
  assumes "real j * recv_interval c \<le> timeout_connect (comm_params c)" and "settled c w j"
  shows "wait_loop c (now w) (recorded c w j) (recorded c w j \<noteq> 0) (polled c w j)
           = Some (recorded c w j, snd (in_waiting (polled c w j)))"
  using assms by (intro wait_loop_break) (auto simp: now_polled settled_def seen_def)

lemma loop_step:
  assumes "real j * recv_interval c \<le> timeout_connect (comm_params c)"
    and "\<not> settled c w j"
  shows "wait_loop c (now w) (recorded c w j) (recorded c w j \<noteq> 0) (polled c w j)
           = wait_loop c (now w) (recorded c w (Suc j)) (recorded c w (Suc j) \<noteq> 0)
               (polled c w (Suc j))"
proof (cases "seen c w j \<noteq> 0 \<and> seen c w j \<noteq> recorded c w j")
  case True
  have "wait_loop c (now w) (recorded c w j) (recorded c w j \<noteq> 0) (polled c w j)
          = wait_loop c (now w) (length (rx (polled c w j))) True
              (poll_sleep c (polled c w j))"
    using assms(1) True by (intro wait_loop_record) (auto simp: now_polled seen_def)
  then show ?thesis using True by (simp add: recorded_Suc polled_Suc seen_def)
next
  case False
  with assms(2) have z: "recorded c w j = 0" and s: "seen c w j = 0"
    by (auto simp: settled_def)
  have "wait_loop c (now w) (recorded c w j) (recorded c w j \<noteq> 0) (polled c w j)
          = wait_loop c (now w) (recorded c w j) (recorded c w j \<noteq> 0)
              (poll_sleep c (polled c w j))"
    using assms(1) z s by (intro wait_loop_idle) (auto simp: now_polled seen_def)
  then show ?thesis using z s by (simp add: recorded_Suc polled_Suc)
qed

lemma loop_first_settled:
  assumes "0 \<le> recv_interval c"
    and "real j * recv_interval c \<le> timeout_connect (comm_params c)"
    and "settled c w j" and "\<forall>i<j. \<not> settled c w i" and "i \<le> j"
  shows "wait_loop c (now w) (recorded c w i) (recorded c w i \<noteq> 0) (polled c w i)
           = Some (recorded c w j, snd (in_waiting (polled c w j)))"
  using assms(5)
proof (induction "j - i" arbitrary: i)
  case 0
  then have "i = j" by simp
  then show ?case using assms(2,3) loop_break [of j c w] by blast
next
  case (Suc n)
  then have lt: "i < j" by simp
  have "real i * recv_interval c \<le> real j * recv_interval c"
    using lt assms(1) by (intro mult_right_mono) simp_all
  then have "real i * recv_interval c \<le> timeout_connect (comm_params c)"
    using assms(2) by simp
  moreover have "\<not> settled c w i" using lt assms(4) by simp
  ultimately have
    "wait_loop c (now w) (recorded c w i) (recorded c w i \<noteq> 0) (polled c w i)
      = wait_loop c (now w) (recorded c w (Suc i)) (recorded c w (Suc i) \<noteq> 0)
          (polled c w (Suc i))"
    by (rule loop_step)
  also have "\<dots> = Some (recorded c w j, snd (in_waiting (polled c w j)))"
    using Suc.hyps(2) lt by (intro Suc.hyps(1)) simp_all
  finally show ?case .
qed

lemma loop_abort:
  assumes "timeout_connect (comm_params c) < real j * recv_interval c"
    and "\<forall>k<j. real k * recv_interval c \<le> timeout_connect (comm_params c) \<and> \<not> settled c w k"
    and "i \<le> j"
  shows "wait_loop c (now w) (recorded c w i) (recorded c w i \<noteq> 0) (polled c w i)
           = Some (recorded c w j, polled c w j)"
  using assms(3)
proof (induction "j - i" arbitrary: i)
  case 0
  then have "i = j" by simp
  then show ?case using assms(1) loop_exit [of c j w] by blast
next
  case (Suc n)
  then have lt: "i < j" by simp
  with assms(2) have "real i * recv_interval c \<le> timeout_connect (comm_params c)"
    and "\<not> settled c w i" by simp_all
  then have
    "wait_loop c (now w) (recorded c w i) (recorded c w i \<noteq> 0) (polled c w i)
      = wait_loop c (now w) (recorded c w (Suc i)) (recorded c w (Suc i) \<noteq> 0)
          (polled c w (Suc i))"
    by (rule loop_step)
  also have "\<dots> = Some (recorded c w j, polled c w j)"
    using Suc.hyps(2) lt by (intro Suc.hyps(1)) simp_all
  finally show ?case .
qed

lemma loop_returns:
  assumes "0 < recv_interval c"
    and "timeout_connect (comm_params c) - real i * recv_interval c < real n * recv_interval c"
  shows "\<exists>j\<ge>i. (\<forall>k. i \<le> k \<and> k < j \<longrightarrow>
                  real k * recv_interval c \<le> timeout_connect (comm_params c)
                  \<and> \<not> settled c w k)
           \<and> (timeout_connect (comm_params c) < real j * recv_interval c
                \<and> wait_loop c (now w) (recorded c w i) (recorded c w i \<noteq> 0) (polled c w i)
                    = Some (recorded c w j, polled c w j)
              \<or> real j * recv_interval c \<le> timeout_connect (comm_params c)
                \<and> settled c w j
                \<and> wait_loop c (now w) (recorded c w i) (recorded c w i \<noteq> 0) (polled c w i)
                    = Some (recorded c w j, snd (in_waiting (polled c w j))))"
  using assms(2)
proof (induction n arbitrary: i)
  case 0
  then have "timeout_connect (comm_params c) < real i * recv_interval c" by simp
  then show ?case using loop_exit [of c i w] by (intro exI [of _ i]) auto
next
  case (Suc n)
  show ?case
  proof (cases "timeout_connect (comm_params c) < real i * recv_interval c")
    case True
    then show ?thesis using loop_exit [of c i w] by (intro exI [of _ i]) auto
  next
    case False
    then have le: "real i * recv_interval c \<le> timeout_connect (comm_params c)" by simp
    show ?thesis
    proof (cases "settled c w i")
      case True
      then show ?thesis using le loop_break [of i c w] by (intro exI [of _ i]) auto
    next
      case ns: False
      have "timeout_connect (comm_params c) - real (Suc i) * recv_interval c
              < real n * recv_interval c"
        using Suc.prems by (simp add: algebra_simps)
      from Suc.IH [OF this] obtain j where j: "Suc i \<le> j"
        and before: "\<forall>k. Suc i \<le> k \<and> k < j \<longrightarrow>
                  real k * recv_interval c \<le> timeout_connect (comm_params c)
                  \<and> \<not> settled c w k"
        and res: "timeout_connect (comm_params c) < real j * recv_interval c
                \<and> wait_loop c (now w) (recorded c w (Suc i)) (recorded c w (Suc i) \<noteq> 0)
                      (polled c w (Suc i))
                    = Some (recorded c w j, polled c w j)
              \<or> real j * recv_interval c \<le> timeout_connect (comm_params c)
                \<and> settled c w j
                \<and> wait_loop c (now w) (recorded c w (Suc i)) (recorded c w (Suc i) \<noteq> 0)
                      (polled c w (Suc i))
                    = Some (recorded c w j, snd (in_waiting (polled c w j)))"
        by blast
      have b': "\<forall>k. i \<le> k \<and> k < j \<longrightarrow>
                  real k * recv_interval c \<le> timeout_connect (comm_params c)
                  \<and> \<not> settled c w k"
      proof (intro allI impI)
        fix k assume k: "i \<le> k \<and> k < j"
        show "real k * recv_interval c \<le> timeout_connect (comm_params c) \<and> \<not> settled c w k"
        proof (cases "k = i")
          case True then show ?thesis using le ns by simp
        next
          case False then show ?thesis using k before by simp
        qed
      qed
      have "i \<le> j" using j by simp
      then show ?thesis
        using b' res loop_step [OF le ns] by (intro exI [of _ j]) auto
    qed
  qed
qed

lemma wait_for_data_returns:
  assumes "0 < recv_interval c"
  shows "\<exists>j. (\<forall>k<j. elapsed c w k \<le> timeout_connect (comm_params c) \<and> \<not> settled c w k)
           \<and> (timeout_connect (comm_params c) < elapsed c w j
                \<and> wait_for_data c w = Some (recorded c w j, polled c w j)
              \<or> elapsed c w j \<le> timeout_connect (comm_params c) \<and> settled c w j
                \<and> wait_for_data c w = Some (recorded c w j, snd (in_waiting (polled c w j))))"
proof -
  obtain n where "timeout_connect (comm_params c) < real n * recv_interval c"
    using assms ex_less_of_nat_mult by blast
  then have
    "timeout_connect (comm_params c) - real 0 * recv_interval c < real n * recv_interval c"
    by simp
  from loop_returns [OF assms this, of w] show ?thesis
    by (auto simp: wait_for_data_def elapsed_eq)
qed

lemma wait_for_data_aborts:
  assumes "timeout_connect (comm_params c) < elapsed c w j"
    and "\<forall>k<j. elapsed c w k \<le> timeout_connect (comm_params c) \<and> \<not> settled c w k"
  shows "wait_for_data c w = Some (recorded c w j, polled c w j)"
  using loop_abort [of c j w 0] assms by (simp add: wait_for_data_def elapsed_eq)

lemma wait_for_data_settles:
  assumes "0 \<le> recv_interval c"
    and "elapsed c w j \<le> timeout_connect (comm_params c)"
    and "settled c w j" and "\<forall>i<j. \<not> settled c w i"
  shows "wait_for_data c w = Some (recorded c w j, snd (in_waiting (polled c w j)))"
  using loop_first_settled [of c j w 0] assms by (simp add: wait_for_data_def elapsed_eq)

text \<open>
  C3: with a positive poll interval (the constructor makes it at least a millisecond)
  \<open>wait_for_data\<close> returns, whatever the line does. It returns at some poll \<open>j\<close>, all
  earlier polls having been within the timeout and unsettled: either the time elapsed at
  poll \<open>j\<close> exceeds the connect timeout, and the loop returns there without polling, or
  poll \<open>j\<close> is within the timeout and settled. In both cases it returns the count
  recorded so far, which is 0 when no data was seen. In particular, at the first poll at
  which the elapsed time exceeds the timeout the loop stops and returns the recorded
  count.
\<close>

theorem wait_for_data_terminates:
  assumes "0 < recv_interval c"
  shows "(\<exists>j. (\<forall>k<j. elapsed c w k \<le> timeout_connect (comm_params c) \<and> \<not> settled c w k)
           \<and> (timeout_connect (comm_params c) < elapsed c w j
                \<and> wait_for_data c w = Some (recorded c w j, polled c w j)
              \<or> elapsed c w j \<le> timeout_connect (comm_params c) \<and> settled c w j
                \<and> wait_for_data c w
                    = Some (recorded c w j, snd (in_waiting (polled c w j)))))
       \<and> (timeout_connect (comm_params c) < elapsed c w a
            \<and> (\<forall>k<a. elapsed c w k \<le> timeout_connect (comm_params c) \<and> \<not> settled c w k)
          \<longrightarrow> wait_for_data c w = Some (recorded c w a, polled c w a))"
  using wait_for_data_returns [OF assms, of w] wait_for_data_aborts [of c w a] by blast

section \<open>Receiving\<close>

lemma in_waiting_fields:
  "fst (in_waiting w) = length (rx w)"
  "rx (snd (in_waiting w)) = rx w"
  "now (snd (in_waiting w)) = now w"
  "calls (snd (in_waiting w)) = calls w @ [(now w, InWaiting (length (rx w)))]"
  by (simp_all add: in_waiting_def called_def)

lemma serial_read_buffered:
  "n \<le> length (rx w) \<Longrightarrow>
   serial_read n w
     = (take n (rx w), w\<lparr>rx := drop n (rx w), calls := calls w @ [(now w, Read n)]\<rparr>)"
  by (cases w) (simp add: serial_read_def called_def Let_def)

lemma recv_Some_buffered:
  assumes "socket c \<noteq> None" and "n \<le> length (rx w)"
  shows "recv c (Some n) w
           = Some (Inr (take n (rx w)), c,
                   w\<lparr>rx := drop n (rx w),
                     calls := calls w @ [(now w, InWaiting (length (rx w))), (now w, Read n)]\<rparr>)"
  using assms
  by (cases w) (simp add: recv_def in_waiting_def serial_read_def called_def Let_def)

lemma recv_Some_short:
  assumes "socket c \<noteq> None" and "length (rx w) < n"
  shows "recv c (Some n) w
           = (case wait_for_data c (snd (in_waiting w)) of
                None \<Rightarrow> None
              | Some (k, w2) \<Rightarrow> Some (Inr (fst (serial_read n w2)), c, snd (serial_read n w2)))"
  using assms
  by (auto simp: recv_def in_waiting_def split: option.splits prod.splits)

lemma recv_None:
  assumes "socket c \<noteq> None"
  shows "recv c None w
           = (case wait_for_data c w of None \<Rightarrow> None | Some (n, w1) \<Rightarrow> recv c (Some n) w1)"
  using assms by (auto simp: recv_def split: option.splits prod.splits)

lemma recv_None_buffered:
  assumes "socket c \<noteq> None" and "wait_for_data c w = Some (n, w1)" and "n \<le> length (rx w1)"
  shows "recv c None w
           = Some (Inr (take n (rx w1)), c,
                   w1\<lparr>rx := drop n (rx w1),
                      calls := calls w1 @ [(now w1, InWaiting (length (rx w1))),
                                           (now w1, Read n)]\<rparr>)"
  using assms by (simp add: recv_None recv_Some_buffered)

subsection \<open>A silent line\<close>

lemma rx_polled_silent:
  assumes "rx w = []" and "\<forall>k. line w (waits w + k) [] = []"
  shows "rx (polled c w j) = []"
  using assms by (induction j) (simp_all add: rx_polled_Suc)

text \<open>
  C10: on a client that holds a device handle, with a positive poll interval, an empty
  receive buffer and a line that delivers nothing, \<open>recv None\<close> returns, without an
  error, the empty byte string, and when it returns more time than the connect timeout
  has passed since the call.
\<close>

theorem recv_silent_line:
  assumes "socket c \<noteq> None" and "0 < recv_interval c"
    and "rx w = []" and "\<forall>k. line w (waits w + k) [] = []"
  shows "\<exists>w'. recv c None w = Some (Inr [], c, w')
            \<and> timeout_connect (comm_params c) < now w' - now w"
proof -
  have z: "seen c w k = 0" for k
    using assms(3,4) by (simp add: seen_def rx_polled_silent)
  then have r: "recorded c w k = 0" for k
    by (simp add: recorded_none)
  then have ns: "\<not> settled c w k" for k
    by (simp add: settled_def)
  from wait_for_data_returns [OF assms(2), of w] ns r obtain j
    where t: "timeout_connect (comm_params c) < elapsed c w j"
      and wt: "wait_for_data c w = Some (0, polled c w j)"
    by auto
  have "0 \<le> length (rx (polled c w j))" by simp
  from recv_None_buffered [OF assms(1) wt this]
  have "recv c None w
          = Some (Inr [], c,
              (polled c w j)\<lparr>rx := rx (polled c w j),
                 calls := calls (polled c w j)
                   @ [(now (polled c w j), InWaiting (length (rx (polled c w j)))),
                      (now (polled c w j), Read 0)]\<rparr>)"
    by simp
  then show ?thesis using t by (auto simp: elapsed_def)
qed

theorem recv_silent_line_witness:
  "socket slow_client \<noteq> None \<and> 0 < recv_interval slow_client \<and> rx world0 = []
   \<and> (\<forall>k. line world0 (waits world0 + k) [] = [])
   \<and> (\<exists>w'. recv slow_client None world0 = Some (Inr [], slow_client, w')
          \<and> 1 / 2 < now w' - now world0)"
proof -
  have h: "socket slow_client \<noteq> None" "0 < recv_interval slow_client" "rx world0 = []"
    "\<forall>k. line world0 (waits world0 + k) [] = []"
    by (simp_all add: slow_client_def world0_def)
  have "timeout_connect (comm_params slow_client) = 1 / 2"
    by (simp add: slow_client_def slow_params_def)
  with recv_silent_line [OF h] h show ?thesis by simp
qed

subsection \<open>Frame-boundary detection\<close>

lemma rx_polled_chunks:
  assumes "rx w = []" and "\<forall>k b. line w (waits w + k) b = b @ chunk k"
  shows "rx (polled c w j) = concat (map chunk [0..<j])"
  using assms by (induction j) (simp_all add: rx_polled_Suc)

subsection \<open>A slow line and a short timeout\<close>

lemma upt_small:
  "[0..<2] = [0, 1]" "[0..<3] = [0, 1, 2]" "[0..<4] = [0, 1, 2, 3]"
  by (simp_all add: numeral_eq_Suc)

lemma growing_world_line:
  "rx growing_world = []"
  "\<forall>k b. line growing_world (waits growing_world + k) b = b @ growing_chunk k"
  by (simp_all add: growing_world_def world0_def)

lemma growing_rx:
  "rx (polled c growing_world j) = concat (map growing_chunk [0..<j])"
  using growing_world_line by (rule rx_polled_chunks)

lemma slow_client_timing:
  "recv_interval slow_client = 4803839602528529 / 36028797018963968" "timeout_connect (comm_params slow_client) = 1 / 2"
  "socket slow_client \<noteq> None"
  by (simp_all add: slow_client_def slow_params_def)

lemma slow_growing_seen:
  "seen slow_client growing_world 0 = 0" "seen slow_client growing_world (Suc 0) = 4"
  "seen slow_client growing_world 2 = 8" "seen slow_client growing_world 3 = 12"
  "seen slow_client growing_world 4 = 16"
  by (simp_all add: seen_def growing_rx growing_chunk_def upt_small growing_world_line)

lemma slow_growing_recorded:
  "recorded slow_client growing_world 0 = 0" "recorded slow_client growing_world (Suc 0) = 0"
  "recorded slow_client growing_world 2 = 4" "recorded slow_client growing_world 3 = 8"
  "recorded slow_client growing_world 4 = 12"
  by (simp_all add: recorded_def slow_growing_seen upt_small)

lemma slow_growing_unsettled:
  "\<forall>k<4. elapsed slow_client growing_world k \<le> timeout_connect (comm_params slow_client)
          \<and> \<not> settled slow_client growing_world k"
proof (intro allI impI)
  fix k :: nat
  assume "k < 4"
  then consider "k = 0" | "k = 1" | "k = 2" | "k = 3" by linarith
  then show "elapsed slow_client growing_world k \<le> timeout_connect (comm_params slow_client)
          \<and> \<not> settled slow_client growing_world k"
    by cases
      (simp_all add: elapsed_eq settled_def slow_growing_seen slow_growing_recorded
         slow_client_timing)
qed

lemma slow_growing_timeout:
  "timeout_connect (comm_params slow_client) < elapsed slow_client growing_world 4"
  by (simp add: elapsed_eq slow_client_timing)

lemma slow_growing_wait:
  "wait_for_data slow_client growing_world = Some (12, polled slow_client growing_world 4)"
  using wait_for_data_aborts [OF slow_growing_timeout slow_growing_unsettled]
  by (simp add: slow_growing_recorded)

text \<open>
  C1 (as stated, it fails): the loop also returns when the connect timeout has elapsed,
  settled or not. At 300 baud with a timeout of 0.5 s, on a line that delivers four
  bytes in every poll interval, 32 bytes in all, the polls observe 0, 4, 8 and 12
  bytes; none of them is settled, and the next poll would observe 16; but by then 0.533 s
  have elapsed, and \<open>recv None\<close> returns the first 12 bytes of the 32.
\<close>

theorem recv_returns_while_growing:
  "map_option fst (recv slow_client None growing_world)
     = Some (Inr [1, 2, 3, 4, 1, 2, 3, 4, 1, 2, 3, 4])
   \<and> seen slow_client growing_world 0 = 0 \<and> seen slow_client growing_world 1 = 4
   \<and> seen slow_client growing_world 2 = 8 \<and> seen slow_client growing_world 3 = 12
   \<and> seen slow_client growing_world 4 = 16
   \<and> \<not> settled slow_client growing_world 0 \<and> \<not> settled slow_client growing_world 1
   \<and> \<not> settled slow_client growing_world 2 \<and> \<not> settled slow_client growing_world 3
   \<and> \<not> settled slow_client growing_world 4"
proof -
  have sock: "socket slow_client \<noteq> None" by (rule slow_client_timing)
  have rx4: "rx (polled slow_client growing_world 4)
               = [1, 2, 3, 4, 1, 2, 3, 4, 1, 2, 3, 4, 1, 2, 3, 4]"
    by (simp add: growing_rx growing_chunk_def upt_small)
  then have "12 \<le> length (rx (polled slow_client growing_world 4))" by simp
  from recv_None_buffered [OF sock slow_growing_wait this]
  have "map_option fst (recv slow_client None growing_world)
          = Some (Inr [1, 2, 3, 4, 1, 2, 3, 4, 1, 2, 3, 4])"
    by (simp add: rx4)
  then show ?thesis
    by (simp add: settled_def slow_growing_seen slow_growing_recorded)
qed

lemma recv_frame:
  assumes sock: "socket c \<noteq> None" and d: "0 \<le> recv_interval c"
    and rx0: "rx w = []" and ln: "\<forall>k b. line w (waits w + k) b = b @ chunk k"
    and K: "0 < K" and grow: "\<forall>k<K. chunk k \<noteq> []" and silent: "chunk K = []"
    and tm: "elapsed c w (Suc K) \<le> timeout_connect (comm_params c)"
  shows "\<exists>w'. recv c None w = Some (Inr (concat (map chunk [0..<K])), c, w') \<and> rx w' = []"
proof -
  have sn: "seen c w j = length (concat (map chunk [0..<j]))" for j
    by (simp add: seen_def rx_polled_chunks [OF rx0 ln])
  have sn_Suc: "seen c w (Suc j) = seen c w j + length (chunk j)" for j
    by (simp add: sn)
  have sn_0: "seen c w 0 = 0" by (simp add: sn)
  have sn_1: "seen c w (Suc 0) \<noteq> 0"
    using K grow by (simp add: sn)
  have mono: "seen c w (Suc 0) \<le> seen c w (Suc j)" for j
    by (induction j) (simp_all add: sn_Suc [of "Suc _"])
  have pos: "seen c w (Suc j) \<noteq> 0" for j
    using mono [of j] sn_1 by simp
  have rec: "recorded c w (Suc j) = seen c w j" for j
    by (cases j) (simp_all add: recorded_Suc sn_0 pos)
  have ns: "\<forall>i<Suc K. \<not> settled c w i"
  proof (intro allI impI)
    fix i assume i: "i < Suc K"
    show "\<not> settled c w i"
    proof (cases i)
      case 0
      then show ?thesis by (simp add: settled_def)
    next
      case (Suc i')
      with i have "chunk i' \<noteq> []" using grow by simp
      then show ?thesis using Suc by (simp add: settled_def rec sn_Suc)
    qed
  qed
  have "seen c w K \<noteq> 0" using K pos [of "K - 1"] by simp
  then have st: "settled c w (Suc K)"
    using silent by (simp add: settled_def rec sn_Suc)
  have wt: "wait_for_data c w
              = Some (seen c w K, snd (in_waiting (polled c w (Suc K))))"
    using wait_for_data_settles [OF d tm st ns] by (simp add: rec)
  have rxK: "rx (snd (in_waiting (polled c w (Suc K)))) = concat (map chunk [0..<K])"
    using silent by (simp add: in_waiting_fields rx_polled_chunks [OF rx0 ln])
  then have "seen c w K \<le> length (rx (snd (in_waiting (polled c w (Suc K)))))"
    by (simp add: sn)
  from recv_None_buffered [OF sock wt this] show ?thesis
    by (simp add: rxK sn)
qed

text \<open>
  C1 (amended): as long as the connect timeout has not elapsed, the loop returns the
  recorded count at the first settled poll, that is, the first poll before which data
  has been seen and whose count is zero or equal to the last recorded count; until then
  it records every changed count and goes on polling. So, for a line that delivers a
  frame of N bytes, some in each of the first K poll intervals, and is then silent for
  one interval, \<open>recv None\<close> returns exactly those N bytes and leaves the buffer empty,
  provided the poll after the silent interval is within the connect timeout. (When the
  timeout elapses first, the loop returns the count recorded until then.)
\<close>

theorem frame_boundary_detection:
  assumes "0 \<le> recv_interval c"
  shows "(elapsed c w j \<le> timeout_connect (comm_params c) \<and> settled c w j
            \<and> (\<forall>i<j. \<not> settled c w i)
          \<longrightarrow> wait_for_data c w = Some (recorded c w j, snd (in_waiting (polled c w j))))
       \<and> (socket c \<noteq> None \<and> rx w = [] \<and> (\<forall>k b. line w (waits w + k) b = b @ chunk k)
            \<and> 0 < K \<and> (\<forall>k<K. chunk k \<noteq> []) \<and> chunk K = []
            \<and> elapsed c w (Suc K) \<le> timeout_connect (comm_params c)
          \<longrightarrow> (\<exists>w'. recv c None w = Some (Inr (concat (map chunk [0..<K])), c, w')
                  \<and> rx w' = []))"
  using wait_for_data_settles [OF assms, of w j] recv_frame [OF _ assms, of w chunk K]
  by blast

subsection \<open>The timeout and the detection on concrete lines\<close>

text \<open>
  The slow client on the growing line: the first poll at which the time elapsed exceeds
  the timeout of 0.5 s is poll 4, after four poll intervals (0.5333... s), and the count
  recorded by then is 12.
\<close>

theorem wait_for_data_terminates_witness:
  "0 < recv_interval slow_client
   \<and> timeout_connect (comm_params slow_client) < elapsed slow_client growing_world 4
   \<and> elapsed slow_client growing_world 4 = 4803839602528529 / 9007199254740992
   \<and> wait_for_data slow_client growing_world = Some (12, polled slow_client growing_world 4)"
proof -
  have h: "0 < recv_interval slow_client" by (simp add: slow_client_timing)
  have e: "elapsed slow_client growing_world 4 = 4803839602528529 / 9007199254740992"
    by (simp add: elapsed_eq slow_client_timing)
  from wait_for_data_terminates [OF h, of growing_world 4]
    slow_growing_timeout slow_growing_unsettled
  have "wait_for_data slow_client growing_world
          = Some (recorded slow_client growing_world 4, polled slow_client growing_world 4)"
    by blast
  then show ?thesis using h e slow_growing_timeout by (simp add: slow_growing_recorded)
qed

lemma frame_world_line:
  "rx frame_world = []"
  "\<forall>k b. line frame_world (waits frame_world + k) b = b @ frame_chunk k"
  by (simp_all add: frame_world_def world0_def)

lemma connected0_timing:
  "recv_interval connected0 = 4803839602528529 / 2305843009213693952" "timeout_connect (comm_params connected0) = 3"
  "socket connected0 \<noteq> None"
  by (simp_all add: connected0_def client0_def params0_def)

lemma frame_rx: "rx (polled c frame_world j) = concat (map frame_chunk [0..<j])"
  using frame_world_line by (rule rx_polled_chunks)

lemma frame_seen:
  "seen connected0 frame_world 0 = 0" "seen connected0 frame_world (Suc 0) = 4"
  "seen connected0 frame_world 2 = 8" "seen connected0 frame_world 3 = 8"
  by (simp_all add: seen_def frame_rx frame_chunk_def upt_small frame_world_line)

lemma frame_recorded:
  "recorded connected0 frame_world 0 = 0" "recorded connected0 frame_world (Suc 0) = 0"
  "recorded connected0 frame_world 2 = 4" "recorded connected0 frame_world 3 = 8"
  by (simp_all add: recorded_def frame_seen upt_small)

lemma frame_settled:
  "settled connected0 frame_world 3" "\<forall>i<3. \<not> settled connected0 frame_world i"
proof -
  show "settled connected0 frame_world 3"
    by (simp add: settled_def frame_seen frame_recorded)
  show "\<forall>i<3. \<not> settled connected0 frame_world i"
  proof (intro allI impI)
    fix i :: nat
    assume "i < 3"
    then consider "i = 0" | "i = 1" | "i = 2" by linarith
    then show "\<not> settled connected0 frame_world i"
      by cases (simp_all add: settled_def frame_seen frame_recorded)
  qed
qed

theorem frame_boundary_detection_witness:
  "0 \<le> recv_interval connected0
   \<and> elapsed connected0 frame_world 3 \<le> timeout_connect (comm_params connected0)
   \<and> settled connected0 frame_world 3 \<and> \<not> settled connected0 frame_world 0
   \<and> \<not> settled connected0 frame_world 1 \<and> \<not> settled connected0 frame_world 2
   \<and> wait_for_data connected0 frame_world
       = Some (8, snd (in_waiting (polled connected0 frame_world 3)))
   \<and> socket connected0 \<noteq> None \<and> rx frame_world = []
   \<and> (\<forall>k b. line frame_world (waits frame_world + k) b = b @ frame_chunk k)
   \<and> frame_chunk 0 \<noteq> [] \<and> frame_chunk 1 \<noteq> [] \<and> frame_chunk 2 = []
   \<and> (\<exists>w'. recv connected0 None frame_world
                = Some (Inr [1, 3, 2, 0, 1, 3, 2, 0], connected0, w') \<and> rx w' = [])"
proof -
  have d: "0 \<le> recv_interval connected0" by (simp add: connected0_timing)
  have e: "elapsed connected0 frame_world 3 \<le> timeout_connect (comm_params connected0)"
    "elapsed connected0 frame_world (Suc 2) \<le> timeout_connect (comm_params connected0)"
    by (simp_all add: elapsed_eq connected0_timing)
  have c: "\<forall>k<2. frame_chunk k \<noteq> []" "frame_chunk 2 = []" "(0::nat) < 2"
    by (simp_all add: frame_chunk_def)
  have cc: "concat (map frame_chunk [0..<2]) = [1, 3, 2, 0, 1, 3, 2, 0]"
    by (simp add: upt_small frame_chunk_def)
  note th = frame_boundary_detection [OF d, of frame_world 3 frame_chunk 2]
  from th e(1) frame_settled
  have w: "wait_for_data connected0 frame_world
             = Some (recorded connected0 frame_world 3,
                     snd (in_waiting (polled connected0 frame_world 3)))"
    by blast
  from th connected0_timing(3) frame_world_line c e(2)
  have r: "\<exists>w'. recv connected0 None frame_world
                = Some (Inr (concat (map frame_chunk [0..<2])), connected0, w') \<and> rx w' = []"
    by blast
  have u: "\<not> settled connected0 frame_world 0" "\<not> settled connected0 frame_world 1"
    "\<not> settled connected0 frame_world 2"
    using frame_settled(2) by simp_all
  have n: "frame_chunk 0 \<noteq> []" "frame_chunk 1 \<noteq> []"
    by (simp_all add: frame_chunk_def)
  show ?thesis
    using d e(1) frame_settled(1) u n w r connected0_timing(3) frame_world_line c(2)
    by (simp add: frame_recorded cc)
qed

subsection \<open>The two modes of receiving\<close>

text \<open>
  C4: on a client that holds a device handle, \<open>recv None\<close> runs the detection and then
  behaves as \<open>recv\<close> of the count the detection returned. \<open>recv (Some n)\<close> polls the
  buffer; when at least \<open>n\<close> bytes are buffered it reads at once, returning exactly the
  first \<open>n\<close> bytes and leaving the others in the buffer; when fewer are buffered it runs
  the detection first, drops the count it returns, and then asks the device for \<open>n\<close>
  bytes. The device's read of \<open>n\<close> bytes returns the first \<open>n\<close> bytes that are
  buffered and leaves the others.
\<close>

theorem recv_modes:
  assumes "socket c \<noteq> None"
  shows "recv c None w
           = (case wait_for_data c w of None \<Rightarrow> None | Some (n, w1) \<Rightarrow> recv c (Some n) w1)
       \<and> (n \<le> length (rx w) \<longrightarrow>
            recv c (Some n) w
              = Some (Inr (take n (rx w)), c,
                      w\<lparr>rx := drop n (rx w),
                        calls := calls w @ [(now w, InWaiting (length (rx w))),
                                            (now w, Read n)]\<rparr>))
       \<and> (length (rx w) < n \<longrightarrow>
            recv c (Some n) w
              = (case wait_for_data c (snd (in_waiting w)) of
                   None \<Rightarrow> None
                 | Some (k, w2) \<Rightarrow>
                     Some (Inr (fst (serial_read n w2)), c, snd (serial_read n w2))))
       \<and> (n \<le> length (rx w2) \<longrightarrow>
            serial_read n w2
              = (take n (rx w2),
                 w2\<lparr>rx := drop n (rx w2), calls := calls w2 @ [(now w2, Read n)]\<rparr>))"
  using recv_None [OF assms, of w] recv_Some_buffered [OF assms, of n w]
    recv_Some_short [OF assms, of w n] serial_read_buffered [of n w2]
  by blast

lemma rx_polled_append:
  assumes "\<forall>k b. line w (waits w + k) b = b @ chunk k"
  shows "rx (polled c w j) = rx w @ concat (map chunk [0..<j])"
  using assms by (induction j) (simp_all add: rx_polled_Suc)

lemma frame_wait:
  "wait_for_data connected0 frame_world
     = Some (8, snd (in_waiting (polled connected0 frame_world 3)))"
proof -
  have "elapsed connected0 frame_world 3 \<le> timeout_connect (comm_params connected0)"
    and "0 \<le> recv_interval connected0"
    by (simp_all add: elapsed_eq connected0_timing)
  from wait_for_data_settles [OF this(2) this(1) frame_settled] show ?thesis
    by (simp add: frame_recorded)
qed

lemma frame_rx3:
  "rx (snd (in_waiting (polled connected0 frame_world 3))) = [1, 3, 2, 0, 1, 3, 2, 0]"
  by (simp add: in_waiting_fields frame_rx upt_small frame_chunk_def)

lemma partial_polled_line:
  "rx (snd (in_waiting partial_world)) = [1, 3]"
  "\<forall>k b. line (snd (in_waiting partial_world)) (waits (snd (in_waiting partial_world)) + k) b
          = b @ partial_chunk k"
  by (simp_all add: partial_world_def world0_def in_waiting_def called_def)

lemma partial_rx:
  "rx (polled c (snd (in_waiting partial_world)) j)
     = [1, 3] @ concat (map partial_chunk [0..<j])"
  using rx_polled_append [OF partial_polled_line(2), of c j]
  by (simp add: partial_polled_line(1))

lemma partial_seen:
  "seen connected0 (snd (in_waiting partial_world)) 0 = 2"
  "seen connected0 (snd (in_waiting partial_world)) (Suc 0) = 8"
  "seen connected0 (snd (in_waiting partial_world)) 2 = 8"
  by (simp_all add: seen_def partial_rx partial_chunk_def upt_small partial_polled_line)

lemma partial_recorded:
  "recorded connected0 (snd (in_waiting partial_world)) 0 = 0"
  "recorded connected0 (snd (in_waiting partial_world)) (Suc 0) = 2"
  "recorded connected0 (snd (in_waiting partial_world)) 2 = 8"
  by (simp_all add: recorded_def partial_seen upt_small)

lemma partial_wait:
  "wait_for_data connected0 (snd (in_waiting partial_world))
     = Some (8, snd (in_waiting (polled connected0 (snd (in_waiting partial_world)) 2)))"
proof -
  have e: "elapsed connected0 (snd (in_waiting partial_world)) 2
             \<le> timeout_connect (comm_params connected0)"
    and d: "0 \<le> recv_interval connected0"
    by (simp_all add: elapsed_eq connected0_timing)
  have st: "settled connected0 (snd (in_waiting partial_world)) 2"
    by (simp add: settled_def partial_seen partial_recorded)
  have ns: "\<forall>i<2. \<not> settled connected0 (snd (in_waiting partial_world)) i"
  proof (intro allI impI)
    fix i :: nat
    assume "i < 2"
    then consider "i = 0" | "i = 1" by linarith
    then show "\<not> settled connected0 (snd (in_waiting partial_world)) i"
      by cases (simp_all add: settled_def partial_seen partial_recorded)
  qed
  from wait_for_data_settles [OF d e st ns] show ?thesis
    by (simp add: partial_recorded)
qed

lemma partial_rx2:
  "rx (snd (in_waiting (polled connected0 (snd (in_waiting partial_world)) 2)))
     = [1, 3, 2, 0, 1, 3, 2, 0]"
  by (simp add: in_waiting_fields partial_rx upt_small partial_chunk_def)

theorem recv_modes_witness:
  "socket connected0 \<noteq> None
   \<and> map_option fst (recv connected0 None frame_world) = Some (Inr [1, 3, 2, 0, 1, 3, 2, 0])
   \<and> 4 \<le> length (rx buffered_world)
   \<and> recv connected0 (Some 4) buffered_world
       = Some (Inr [1, 3, 2, 0], connected0,
               world0\<lparr>rx := [7, 7], calls := [(0, InWaiting 6), (0, Read 4)]\<rparr>)
   \<and> length (rx partial_world) < 6
   \<and> map_option fst (recv connected0 (Some 6) partial_world) = Some (Inr [1, 3, 2, 0, 1, 3])
   \<and> map_option (\<lambda>r. rx (snd (snd r))) (recv connected0 (Some 6) partial_world)
       = Some [2, 0]"
proof -
  have s: "socket connected0 \<noteq> None" by (rule connected0_timing)
  have a: "map_option fst (recv connected0 None frame_world)
             = Some (Inr [1, 3, 2, 0, 1, 3, 2, 0])"
    using recv_modes [OF s, of frame_world 8 frame_world]
      recv_modes [OF s, of "snd (in_waiting (polled connected0 frame_world 3))" 8 frame_world]
    by (simp add: frame_wait frame_rx3)
  have b: "4 \<le> length (rx buffered_world)
     \<and> recv connected0 (Some 4) buffered_world
       = Some (Inr [1, 3, 2, 0], connected0,
               world0\<lparr>rx := [7, 7], calls := [(0, InWaiting 6), (0, Read 4)]\<rparr>)"
    using recv_modes [OF s, of buffered_world 4 buffered_world]
    by (simp add: buffered_world_def world0_def)
  have c: "length (rx partial_world) < 6" by (simp add: partial_world_def)
  have d: "recv connected0 (Some 6) partial_world
             = Some (Inr (fst (serial_read 6
                               (snd (in_waiting (polled connected0
                                  (snd (in_waiting partial_world)) 2))))),
                     connected0,
                     snd (serial_read 6
                               (snd (in_waiting (polled connected0
                                  (snd (in_waiting partial_world)) 2)))))"
    using recv_modes [OF s, of partial_world 6 partial_world] c
    by (simp add: partial_wait)
  have e: "fst (serial_read 6 (snd (in_waiting (polled connected0
                                  (snd (in_waiting partial_world)) 2))))
             = [1, 3, 2, 0, 1, 3]
     \<and> rx (snd (serial_read 6 (snd (in_waiting (polled connected0
                                  (snd (in_waiting partial_world)) 2)))))
             = [2, 0]"
    using recv_modes [OF s, of partial_world 6
        "snd (in_waiting (polled connected0 (snd (in_waiting partial_world)) 2))"]
    by (simp add: partial_rx2)
  show ?thesis using s a b c d e by simp
qed

end
